theory Spec2Isabelle
  imports Complex_Main "HOL-Library.Stream"
begin

section \<open>Data model\<close>

text \<open>
  The simulation is written in Python. Its floats are modelled as exact reals: rounding,
  overflow, infinities and NaN are not part of the model. Python's unbounded integers are
  \<open>int\<close>. Agents are objects shared by reference between the economy's lists, the firms'
  rosters and the workers' \<open>employer\<close> fields; they are modelled by an explicit store
  from identifiers to records, and every list of agents is a list of identifiers.
\<close>

datatype skill = Low | Medium | High

datatype error = ZeroDivisionError | IndexError

record worker =
  work_hours :: real
  skill_level :: skill
  worked_overtime :: real
  wage :: real
  is_employed :: bool
  employer :: "nat option"
  wealth :: real
  debt :: real
  total_wages_earned :: real
  total_taxes_paid :: real
  weeks_unemployed :: int
  financial_stress :: real
  debt_capacity :: real
  interest_rate :: real
  is_bankrupt :: bool
  productivity :: real
  owns_firm :: bool
  basic_needs :: real

record firm =
  capital :: real
  profit :: real
  total_surplus_value :: real
  wages_paid :: real
  taxes_paid :: real
  workers :: "nat list"
  max_workers :: int
  preferred_skill_mix :: "skill \<Rightarrow> real"
  wage_rates :: "skill \<Rightarrow> real"
  tax_rate :: real
  wage_share :: real
  surplus_value_rate :: real
  productivity_factor :: real
  base_wage_rate :: real
  demand_multiplier :: real
  hiring_aggressiveness :: real
  firing_threshold :: real

text \<open>
  The state of a run: the fields of \<open>SimpleCapitalistModel\<close>, the two object stores,
  and the shared random source of the \<open>random\<close> module as the stream of the values
  that \<open>random.random()\<close> is going to return.
\<close>

record economy =
  num_workers :: int
  num_firms :: int
  num_owners :: int
  price_index :: real
  inflation_rate :: real
  employed_workers :: "nat list"
  unemployed_workers :: "nat list"
  worker_agents :: "nat list"
  firm_agents :: "nat list"
  wobj :: "nat \<Rightarrow> worker"
  fobj :: "nat \<Rightarrow> firm"
  rng :: "real stream"

section \<open>Python primitives\<close>

text \<open>Float division raises on a zero divisor.\<close>

definition py_div :: "real \<Rightarrow> real \<Rightarrow> error + real" where
  "py_div a b = (if b = 0 then Inl ZeroDivisionError else Inr (a / b))"

text \<open>\<open>random.random()\<close>: the next value of the source.\<close>

definition random :: "real stream \<Rightarrow> real \<times> real stream" where
  "random g = (shd g, stl g)"

text \<open>\<open>random.uniform(a, b)\<close> is \<open>a + (b - a) * random()\<close>.\<close>

definition uniform :: "real \<Rightarrow> real \<Rightarrow> real stream \<Rightarrow> real \<times> real stream" where
  "uniform a b g = (a + (b - a) * shd g, stl g)"

text \<open>
  \<open>random.choice(seq)\<close> raises IndexError on an empty sequence and otherwise returns
  the element at an index below \<open>len(seq)\<close>. The index is taken from one value of the
  source, scaled to the length.
\<close>

definition choice :: "'a list \<Rightarrow> real stream \<Rightarrow> error + ('a \<times> real stream)" where
  "choice xs g =
     (if xs = [] then Inl IndexError
      else Inr (xs ! (nat \<lfloor>shd g * real (length xs)\<rfloor> mod length xs), stl g))"

text \<open>\<open>random.randint(a, b)\<close>: an integer between \<open>a\<close> and \<open>b\<close>, both included.\<close>

definition randint :: "int \<Rightarrow> int \<Rightarrow> real stream \<Rightarrow> int \<times> real stream" where
  "randint a b g = (a + \<lfloor>shd g * real_of_int (b - a + 1)\<rfloor> mod (b - a + 1), stl g)"

text \<open>The values of the source lie in the half-open unit interval.\<close>

definition rng_ok :: "real stream \<Rightarrow> bool" where
  "rng_ok g = (\<forall>u \<in> sset g. 0 \<le> u \<and> u < 1)"

section \<open>SimpleWorkerAgent\<close>

definition get_productivity :: "worker \<Rightarrow> real" where
  "get_productivity w = productivity w"

definition get_productive_value :: "worker \<Rightarrow> real" where
  "get_productive_value w =
     (let base_value_per_hour = 25 in work_hours w * get_productivity w * base_value_per_hour)"

definition get_debt_to_income_ratio :: "worker \<Rightarrow> real option" where
  \<comment> \<open>\<open>None\<close> stands for \<open>float('inf')\<close>.\<close>
  "get_debt_to_income_ratio w =
     (if wage w = 0 then (if debt w > 0 then None else Some 0)
      else let annual_income = wage w * 52
           in if annual_income > 0 then Some (debt w / annual_income) else None)"

definition get_tax_rate :: "worker \<Rightarrow> real stream \<Rightarrow> real \<times> real stream" where
  "get_tax_rate w g =
     (if skill_level w = High then uniform 0.20 0.30 g
      else if skill_level w = Medium then uniform 0.12 0.20 g
      else uniform 0.05 0.12 g)"

fun base_reservation :: "skill \<Rightarrow> real" where
  "base_reservation High = 20"
| "base_reservation Medium = 12"
| "base_reservation Low = 8"

definition get_reservation_wage :: "worker \<Rightarrow> error + real" where
  "get_reservation_wage w =
     (let reservation_hourly = base_reservation (skill_level w);
          reservation_hourly =
            (if \<not> is_employed w \<and> weeks_unemployed w > 4
             then let desperation_factor = min 0.7 (1 - real_of_int (weeks_unemployed w) * 0.05)
                  in reservation_hourly * desperation_factor
             else reservation_hourly)
      in if debt w > 0
         then (case py_div (debt w) (debt_capacity w) of
                 Inl e \<Rightarrow> Inl e
               | Inr q \<Rightarrow>
                   let debt_desperation = max 0.6 (1 - q * 0.4)
                   in Inr (reservation_hourly * debt_desperation * work_hours w))
         else Inr (reservation_hourly * work_hours w))"

definition lose_job :: "worker \<Rightarrow> worker" where
  "lose_job w = w\<lparr>is_employed := False, employer := None, wage := 0\<rparr>"

definition get_unmet_needs :: "worker \<Rightarrow> real" where
  "get_unmet_needs w =
     (let affordable_needs = min (wealth w) (basic_needs w) in basic_needs w - affordable_needs)"

definition handle_debt_mechanics :: "worker \<Rightarrow> worker" where
  "handle_debt_mechanics w =
     (if debt w > 0 then
        let weekly_interest = debt w * (interest_rate w / 52);
            w1 = w\<lparr>debt := debt w + weekly_interest\<rparr>;
            min_payment = max (debt w1 * 0.02) 20;
            w2 = (if wealth w1 \<ge> min_payment
                  then let payment = min min_payment (debt w1)
                       in w1\<lparr>wealth := wealth w1 - payment, debt := debt w1 - payment\<rparr>
                  else w1)
        in if debt w2 > debt_capacity w2 \<and> get_unmet_needs w2 > basic_needs w2 * 2
           then w2\<lparr>is_bankrupt := True, debt := debt_capacity w2\<rparr>
           else w2
      else w)"

definition calculate_financial_stress :: "worker \<Rightarrow> error + worker" where
  "calculate_financial_stress w =
     (let stress_factors = (if \<not> is_employed w then [0.4] else [])
      in case (if debt w > 0
               then (case py_div (debt w) (debt_capacity w) of
                       Inl e \<Rightarrow> Inl e
                     | Inr debt_ratio \<Rightarrow> Inr (stress_factors @ [debt_ratio * 0.3]))
               else Inr stress_factors) of
           Inl e \<Rightarrow> Inl e
         | Inr stress_factors \<Rightarrow>
             (case py_div (get_unmet_needs w) (basic_needs w) of
                Inl e \<Rightarrow> Inl e
              | Inr unmet_ratio \<Rightarrow>
                  let stress_factors = stress_factors @ [min unmet_ratio 1.0 * 0.3]
                  in Inr (w\<lparr>financial_stress := min (sum_list stress_factors) 1.0\<rparr>)))"

fun decay_rate :: "skill \<Rightarrow> real" where
  "decay_rate High = 0.02"
| "decay_rate Medium = 0.03"
| "decay_rate Low = 0.05"

text \<open>The needs payment of \<open>step\<close>, the branch on the employment status.\<close>

definition pay_basic_needs :: "worker \<Rightarrow> worker" where
  "pay_basic_needs w =
     (if \<not> is_employed w then
        let w1 = w\<lparr>weeks_unemployed := weeks_unemployed w + 1\<rparr>;
            needs_cost = basic_needs w1
        in if wealth w1 \<ge> needs_cost
           then w1\<lparr>wealth := wealth w1 - needs_cost\<rparr>
           else let shortfall = needs_cost - wealth w1
                in w1\<lparr>debt := debt w1 + shortfall, wealth := 0\<rparr>
      else
        let needs_cost = basic_needs w
        in if wealth w \<ge> needs_cost then w\<lparr>wealth := wealth w - needs_cost\<rparr> else w)"

definition worker_step :: "worker \<Rightarrow> real stream \<Rightarrow> error + (worker \<times> real stream)" where
  "worker_step w g =
     (case calculate_financial_stress w of
        Inl e \<Rightarrow> Inl e
      | Inr w0 \<Rightarrow>
          let w1 = pay_basic_needs w0;
              w2 = handle_debt_mechanics w1;
              w3 = (if \<not> is_employed w2 \<and> wealth w2 > 0
                    then w2\<lparr>wealth := wealth w2 * (1 - decay_rate (skill_level w2))\<rparr>
                    else w2)
          in if skill_level w3 = High \<and> wealth w3 > 10000
             then (case random g of
                     (u, g1) \<Rightarrow>
                       if u < 0.3
                       then (case uniform 1.001 1.003 g1 of
                               (growth, g2) \<Rightarrow> Inr (w3\<lparr>wealth := wealth w3 * growth\<rparr>, g2))
                       else Inr (w3, g1))
             else Inr (w3, g))"

text \<open>
  \<open>work_for_firm\<close> reads the firm's profit and draws from the shared source, so it
  acts on the whole state. It returns \<open>None\<close> when the worker is already employed and
  the value produced otherwise.
\<close>

definition work_for_firm :: "nat \<Rightarrow> nat \<Rightarrow> real \<Rightarrow> economy \<Rightarrow> real option \<times> economy" where
  "work_for_firm wid fid wage_rate m =
     (let w = wobj m wid in
      if is_employed w then (None, m)
      else
        let w1 = w\<lparr>is_employed := True, employer := Some fid, wage := wage_rate,
                   weeks_unemployed := 0\<rparr>;
            value_produced = get_productive_value w1;
            gross_pay = wage w1 * work_hours w1
        in case get_tax_rate w1 (rng m) of
             (rate, g1) \<Rightarrow>
               let taxes = gross_pay * rate;
                   net_pay = gross_pay - taxes;
                   w2 = w1\<lparr>wealth := wealth w1 + net_pay,
                            total_wages_earned := total_wages_earned w1 + gross_pay,
                            total_taxes_paid := total_taxes_paid w1 + taxes\<rparr>
               in if owns_firm w2 \<and> profit (fobj m fid) > 0
                  then (case uniform 0.01 0.05 g1 of
                          (ownership_share, g2) \<Rightarrow>
                            let dividend = profit (fobj m fid) * ownership_share
                            in (Some value_produced,
                                m\<lparr>wobj := (wobj m)(wid := w2\<lparr>wealth := wealth w2 + dividend\<rparr>),
                                  rng := g2\<rparr>))
                  else (Some value_produced, m\<lparr>wobj := (wobj m)(wid := w2), rng := g1\<rparr>))"

section \<open>SimpleFirmAgent\<close>

text \<open>
  The methods of a firm change the firm, the workers it hires or fires, the economy's
  employment lists and the random source: they take the firm's identifier and the state.
\<close>

definition get_current_skill_mix :: "firm \<Rightarrow> economy \<Rightarrow> skill \<Rightarrow> real" where
  \<comment> \<open>\<open>total\<close> is the length of a non-empty roster, so \<open>count / total\<close> cannot raise.\<close>
  "get_current_skill_mix f m =
     (if workers f = [] then (\<lambda>_. 0)
      else
        let skill_counts =
              fold (\<lambda>wid c. c(skill_level (wobj m wid) := c (skill_level (wobj m wid)) + 1))
                (workers f) (\<lambda>_. 0 :: real);
            total = length (workers f)
        in (\<lambda>s. skill_counts s / real total))"

definition calculate_worker_wage_offer ::
  "nat \<Rightarrow> nat \<Rightarrow> economy \<Rightarrow> error + (real \<times> economy)" where
  "calculate_worker_wage_offer fid wid m =
     (let f = fobj m fid; w = wobj m wid;
          base_hourly_rate = wage_rates f (skill_level w);
          current_mix = get_current_skill_mix f m
      in case (if current_mix (skill_level w) < preferred_skill_mix f (skill_level w)
               then uniform 1.1 1.3 (rng m) else uniform 0.8 1.0 (rng m)) of
           (wage_multiplier, g1) \<Rightarrow>
             let final_hourly_rate = base_hourly_rate * wage_multiplier;
                 weekly_wage = final_hourly_rate * work_hours w
             in case get_reservation_wage w of
                  Inl e \<Rightarrow> Inl e
                | Inr reservation \<Rightarrow> Inr (max weekly_wage reservation, m\<lparr>rng := g1\<rparr>))"

definition hire_worker :: "nat \<Rightarrow> nat \<Rightarrow> real \<Rightarrow> economy \<Rightarrow> bool \<times> economy" where
  "hire_worker fid wid hourly_wage m =
     (let f = fobj m fid;
          m1 = m\<lparr>fobj := (fobj m)(fid := f\<lparr>workers := workers f @ [wid]\<rparr>)\<rparr>;
          m2 = snd (work_for_firm wid fid hourly_wage m1);
          m3 = (if wid \<in> set (unemployed_workers m2)
                then m2\<lparr>unemployed_workers := remove1 wid (unemployed_workers m2)\<rparr> else m2);
          m4 = (if wid \<notin> set (employed_workers m3)
                then m3\<lparr>employed_workers := employed_workers m3 @ [wid]\<rparr> else m3)
      in (True, m4))"

definition should_hire_worker :: "nat \<Rightarrow> nat \<Rightarrow> economy \<Rightarrow> error + (bool \<times> economy)" where
  "should_hire_worker fid wid m =
     (let f = fobj m fid; w = wobj m wid in
      if wid \<notin> set (workers f) then
        if int (length (workers f)) \<ge> max_workers f then Inr (False, m)
        else
          let current_mix = get_current_skill_mix f m;
              preferred_count = preferred_skill_mix f (skill_level w);
              current_count = current_mix (skill_level w);
              hire_probability = (if current_count < preferred_count then 0.8 else 0.3);
              hire_probability =
                (if profit f > 0 then hire_probability * 1.5
                 else if profit f < - 1000 then hire_probability * 0.3
                 else hire_probability)
          in case random (rng m) of
               (u, g1) \<Rightarrow>
                 let hire = (u < hire_probability); m1 = m\<lparr>rng := g1\<rparr>
                 in if hire
                    then (case calculate_worker_wage_offer fid wid m1 of
                            Inl e \<Rightarrow> Inl e
                          | Inr (offer, m2) \<Rightarrow> Inr (True, snd (hire_worker fid wid offer m2)))
                    else Inr (False, m1)
      else Inr (False, m))"

definition fire_worker :: "nat \<Rightarrow> nat \<Rightarrow> economy \<Rightarrow> bool \<times> economy" where
  "fire_worker fid wid m =
     (let f = fobj m fid in
      if wid \<in> set (workers f) then
        let m1 = m\<lparr>fobj := (fobj m)(fid := f\<lparr>workers := remove1 wid (workers f)\<rparr>),
                   wobj := (wobj m)(wid := lose_job (wobj m wid))\<rparr>;
            m2 = (if wid \<in> set (employed_workers m1)
                  then m1\<lparr>employed_workers := remove1 wid (employed_workers m1)\<rparr> else m1);
            m3 = (if wid \<notin> set (unemployed_workers m2)
                  then m2\<lparr>unemployed_workers := unemployed_workers m2 @ [wid]\<rparr> else m2)
        in (True, m3)
      else (False, m))"

text \<open>
  The first block of \<open>_make_employment_decisions\<close>: the firing decision.
\<close>

definition firing_decision :: "nat \<Rightarrow> economy \<Rightarrow> error + economy" where
  "firing_decision fid m =
     (let f = fobj m fid in
      if profit f < - 500 \<and> length (workers f) > 5 then
        let fire_probability = 0.45
        in case random (rng m) of
             (u, g1) \<Rightarrow>
               if u < fire_probability
               then (case choice (workers f) g1 of
                       Inl e \<Rightarrow> Inl e
                     | Inr (worker_to_fire, g2) \<Rightarrow>
                         Inr (snd (fire_worker fid worker_to_fire (m\<lparr>rng := g2\<rparr>))))
               else Inr (m\<lparr>rng := g1\<rparr>)
      else Inr m)"

text \<open>
  The loop of the second block, \<open>for _ in range(min(3, len(unemployed_workers)))\<close>:
  the number of rounds left, and the local copy of the unemployed list.
\<close>

fun hiring_loop :: "nat \<Rightarrow> nat \<Rightarrow> nat list \<Rightarrow> economy \<Rightarrow> error + economy" where
  "hiring_loop fid 0 unemployed m = Inr m"
| "hiring_loop fid (Suc k) unemployed m =
     (if int (length (workers (fobj m fid))) \<ge> max_workers (fobj m fid) then Inr m
      else
        case choice unemployed (rng m) of
          Inl e \<Rightarrow> Inl e
        | Inr (potential_worker, g1) \<Rightarrow>
            (case should_hire_worker fid potential_worker (m\<lparr>rng := g1\<rparr>) of
               Inl e \<Rightarrow> Inl e
             | Inr (hired, m1) \<Rightarrow>
                 if hired then
                   (case calculate_worker_wage_offer fid potential_worker m1 of
                      Inl e \<Rightarrow> Inl e
                    | Inr (wage_offer, m2) \<Rightarrow>
                        (case get_reservation_wage (wobj m2 potential_worker) of
                           Inl e \<Rightarrow> Inl e
                         | Inr reservation \<Rightarrow>
                             if wage_offer \<ge> reservation then
                               (case py_div wage_offer (work_hours (wobj m2 potential_worker)) of
                                  Inl e \<Rightarrow> Inl e
                                | Inr hourly \<Rightarrow>
                                    hiring_loop fid k (remove1 potential_worker unemployed)
                                      (snd (hire_worker fid potential_worker hourly m2)))
                             else hiring_loop fid k unemployed m2))
                 else hiring_loop fid k unemployed m1))"

text \<open>The second block of \<open>_make_employment_decisions\<close>: the hiring decision.\<close>

definition hiring_decision :: "nat \<Rightarrow> economy \<Rightarrow> error + economy" where
  "hiring_decision fid m =
     (if int (length (workers (fobj m fid))) < max_workers (fobj m fid) then
        let unemployed = unemployed_workers m
        in if unemployed \<noteq> [] then hiring_loop fid (min 3 (length unemployed)) unemployed m
           else Inr m
      else Inr m)"

definition make_employment_decisions :: "nat \<Rightarrow> economy \<Rightarrow> error + economy" where
  "make_employment_decisions fid m =
     (case firing_decision fid m of Inl e \<Rightarrow> Inl e | Inr m1 \<Rightarrow> hiring_decision fid m1)"

text \<open>
  The production loop of \<open>step\<close>, over the roster as it is when the loop starts (the
  loop does not change the roster), with the running total of the value produced.
\<close>

fun production_loop :: "nat \<Rightarrow> nat list \<Rightarrow> real \<Rightarrow> economy \<Rightarrow> error + (real \<times> economy)" where
  "production_loop fid [] total_production_value m = Inr (total_production_value, m)"
| "production_loop fid (wid # rest) total_production_value m =
     (let worker_value = get_productive_value (wobj m wid);
          total_production_value = total_production_value + worker_value
      in case calculate_worker_wage_offer fid wid m of
           Inl e \<Rightarrow> Inl e
         | Inr (wage_offer, m1) \<Rightarrow>
             (case py_div wage_offer (work_hours (wobj m1 wid)) of
                Inl e \<Rightarrow> Inl e
              | Inr hourly \<Rightarrow>
                  let m2 = snd (work_for_firm wid fid hourly m1);
                      f = fobj m2 fid;
                      m3 = m2\<lparr>fobj := (fobj m2)
                             (fid := f\<lparr>wages_paid := wages_paid f + wage (wobj m2 wid)\<rparr>)\<rparr>
                  in production_loop fid rest total_production_value m3))"

definition firm_step :: "nat \<Rightarrow> economy \<Rightarrow> error + economy" where
  "firm_step fid m =
     (let f = fobj m fid;
          m0 = m\<lparr>fobj := (fobj m)(fid := f\<lparr>total_surplus_value := 0, wages_paid := 0\<rparr>)\<rparr>
      in case production_loop fid (workers (fobj m0 fid)) 0 m0 of
           Inl e \<Rightarrow> Inl e
         | Inr (total_production_value, m1) \<Rightarrow>
             let f1 = fobj m1 fid;
                 f2 = f1\<lparr>total_surplus_value := total_production_value - wages_paid f1\<rparr>;
                 gross_profit = total_surplus_value f2;
                 f3 = f2\<lparr>taxes_paid := max 0 (gross_profit * tax_rate f2)\<rparr>;
                 f4 = f3\<lparr>profit := gross_profit - taxes_paid f3\<rparr>;
                 f5 = f4\<lparr>capital := capital f4 + profit f4\<rparr>
             in make_employment_decisions fid (m1\<lparr>fobj := (fobj m1)(fid := f5)\<rparr>))"

section \<open>SimpleCapitalistModel: aggregates\<close>

definition get_workers :: "economy \<Rightarrow> worker list" where
  "get_workers m = map (wobj m) (worker_agents m)"

definition get_firms :: "economy \<Rightarrow> firm list" where
  "get_firms m = map (fobj m) (firm_agents m)"

definition get_total_surplus_value :: "firm \<Rightarrow> real" where
  "get_total_surplus_value f = total_surplus_value f"

definition get_wage_share :: "economy \<Rightarrow> error + real" where
  "get_wage_share m =
     (let total_wages = sum_list (map wage (get_workers m));
          total_surplus = sum_list (map get_total_surplus_value (get_firms m));
          total_output = total_wages + total_surplus
      in if total_output > 0 then py_div total_wages total_output else Inr 0)"

text \<open>The loop of \<open>get_avg_exploitation_rate\<close> over the employed workers.\<close>

fun total_exploitation :: "worker list \<Rightarrow> real \<Rightarrow> error + real" where
  "total_exploitation [] acc = Inr acc"
| "total_exploitation (w # ws) acc =
     (let value_produced = get_productive_value w
      in if value_produced > 0
         then (case py_div (wage w) value_produced of
                 Inl e \<Rightarrow> Inl e
               | Inr q \<Rightarrow> total_exploitation ws (acc + (1 - q)))
         else total_exploitation ws acc)"

definition get_avg_exploitation_rate :: "economy \<Rightarrow> error + real" where
  "get_avg_exploitation_rate m =
     (let employed = filter is_employed (get_workers m)
      in if employed = [] then Inr 0
         else (case total_exploitation employed 0 of
                 Inl e \<Rightarrow> Inl e
               | Inr t \<Rightarrow> py_div t (real (length employed))))"

definition get_avg_debt_to_income :: "economy \<Rightarrow> error + real" where
  "get_avg_debt_to_income m =
     (let employed = filter (\<lambda>w. is_employed w \<and> wage w > 0) (get_workers m)
      in if employed = [] then Inr 0
         else let ratios = List.map_filter get_debt_to_income_ratio employed
              in if ratios \<noteq> [] then py_div (sum_list ratios) (real (length ratios)) else Inr 0)"

text \<open>
  \<open>compute_gini\<close> in exact arithmetic: the sort, the weights and the unguarded division of
  the source, with no rounding. What the doubles of the program compute is
  \<open>compute_gini_double\<close> below.
\<close>

definition compute_gini :: "economy \<Rightarrow> error + real" where
  \<comment> \<open>The division that computes \<open>B\<close> comes first: it raises when there is no worker,
      so \<open>1 / n\<close> after it never has a zero divisor.\<close>
  "compute_gini m =
     (let workers_wealth = map (\<lambda>i. wealth (wobj m i)) (worker_agents m);
          x = sort workers_wealth;
          n = length x
      in case py_div (sum_list (map (\<lambda>(i, xi). xi * (real n - real i)) (enumerate 0 x)))
                     (real n * sum_list x) of
           Inl e \<Rightarrow> Inl e
         | Inr B \<Rightarrow> Inr (1 + 1 / real n - 2 * B))"

section \<open>SimpleCapitalistModel: the step\<close>

text \<open>The loop \<open>for worker in self.worker_agents: worker.step()\<close>.\<close>

fun step_workers :: "nat list \<Rightarrow> economy \<Rightarrow> error + economy" where
  "step_workers [] m = Inr m"
| "step_workers (wid # rest) m =
     (case worker_step (wobj m wid) (rng m) of
        Inl e \<Rightarrow> Inl e
      | Inr (w', g') \<Rightarrow> step_workers rest (m\<lparr>wobj := (wobj m)(wid := w'), rng := g'\<rparr>))"

text \<open>The loop \<open>for firm in self.firm_agents: firm.step()\<close>.\<close>

fun step_firms :: "nat list \<Rightarrow> economy \<Rightarrow> error + economy" where
  "step_firms [] m = Inr m"
| "step_firms (fid # rest) m =
     (case firm_step fid m of Inl e \<Rightarrow> Inl e | Inr m' \<Rightarrow> step_firms rest m')"

text \<open>
  \<open>DataCollector.collect\<close> evaluates every reporter under a handler that turns any
  exception into the value 0, so it never raises. The rows it stores are not modelled. One
  reporter changes the state: "Average Financial Stress" calls
  \<open>calculate_financial_stress\<close> on the workers in order, and an exception stops it where
  it is raised, the workers before it keeping their new stress value.
\<close>

fun collect_stress :: "nat list \<Rightarrow> economy \<Rightarrow> economy" where
  "collect_stress [] m = m"
| "collect_stress (wid # rest) m =
     (case calculate_financial_stress (wobj m wid) of
        Inl e \<Rightarrow> m
      | Inr w' \<Rightarrow> collect_stress rest (m\<lparr>wobj := (wobj m)(wid := w')\<rparr>))"

definition collect :: "economy \<Rightarrow> economy" where
  "collect m = collect_stress (worker_agents m) m"

definition model_step :: "economy \<Rightarrow> error + economy" where
  \<comment> \<open>\<open>inflation_rate\<close> is the constant 0.02, so the base of the power is positive.\<close>
  "model_step m =
     (let weekly_inflation = (1 + inflation_rate m) powr (1 / 52) - 1
      in case uniform (- 0.001) 0.001 (rng m) of
           (noise, g1) \<Rightarrow>
             let m1 = m\<lparr>price_index := price_index m * (1 + weekly_inflation + noise),
                        rng := g1\<rparr>
             in case step_workers (worker_agents m1) m1 of
                  Inl e \<Rightarrow> Inl e
                | Inr m2 \<Rightarrow>
                    (case step_firms (firm_agents m2) m2 of
                       Inl e \<Rightarrow> Inl e
                     | Inr m3 \<Rightarrow> Inr (collect m3)))"

text \<open>
  The loop \<open>for step in range(num_steps): model.step()\<close> of \<open>main\<close>: the state at
  each step boundary.
\<close>

fun run_steps :: "nat \<Rightarrow> economy \<Rightarrow> error + economy" where
  "run_steps 0 m = Inr m"
| "run_steps (Suc n) m =
     (case model_step m of Inl e \<Rightarrow> Inl e | Inr m' \<Rightarrow> run_steps n m')"

section \<open>Construction\<close>

definition determine_skill_level :: "real stream \<Rightarrow> skill \<times> real stream" where
  "determine_skill_level g =
     (case random g of
        (rand, g1) \<Rightarrow>
          (if rand < 0.65 then Low else if rand < 0.85 then Medium else High, g1))"

definition get_initial_wealth :: "skill \<Rightarrow> real stream \<Rightarrow> real \<times> real stream" where
  "get_initial_wealth s g =
     (if s = High then uniform 5000 25000 g
      else if s = Medium then uniform 1500 8000 g
      else uniform 0 2000 g)"

definition draw_productivity :: "skill \<Rightarrow> real stream \<Rightarrow> real \<times> real stream" where
  \<comment> \<open>the method \<open>_get_productivity\<close>\<close>
  "draw_productivity s g =
     (if s = High then uniform 1.3 1.8 g
      else if s = Medium then uniform 1.0 1.4 g
      else uniform 0.7 1.2 g)"

fun ownership_chance :: "skill \<Rightarrow> real" where
  "ownership_chance High = 0.15"
| "ownership_chance Medium = 0.05"
| "ownership_chance Low = 0.01"

definition determine_firm_ownership :: "skill \<Rightarrow> real stream \<Rightarrow> bool \<times> real stream" where
  "determine_firm_ownership s g = (case random g of (u, g1) \<Rightarrow> (u < ownership_chance s, g1))"

fun skill_multiplier :: "skill \<Rightarrow> real" where
  "skill_multiplier Low = 0.8"
| "skill_multiplier Medium = 1.0"
| "skill_multiplier High = 1.3"

text \<open>\<open>SimpleWorkerAgent.__init__\<close>, with the default of 40 work hours.\<close>

definition worker_init :: "real \<Rightarrow> real stream \<Rightarrow> worker \<times> real stream" where
  "worker_init hours g =
     (case determine_skill_level g of (s, g1) \<Rightarrow>
      case get_initial_wealth s g1 of (w0, g2) \<Rightarrow>
      case uniform 5000 15000 g2 of (cap, g3) \<Rightarrow>
      case uniform 0.10 0.26 g3 of (rate, g4) \<Rightarrow>
      case draw_productivity s g4 of (pr, g5) \<Rightarrow>
      case determine_firm_ownership s g5 of (owns, g6) \<Rightarrow>
        let d = (if w0 < 0 then max 0 (- w0) else 0);
            base_needs = 500
        in (\<lparr>work_hours = hours, skill_level = s, worked_overtime = 0, wage = 0,
              is_employed = False, employer = None,
              wealth = (if d > 0 then 0 else w0), debt = d,
              total_wages_earned = 0, total_taxes_paid = 0, weeks_unemployed = 0,
              financial_stress = 0, debt_capacity = cap, interest_rate = rate,
              is_bankrupt = False, productivity = pr, owns_firm = owns,
              basic_needs = base_needs * skill_multiplier s\<rparr>, g6))"

text \<open>
  \<open>_determine_skill_preferences\<close>: three draws, normalised by their sum, a division that
  raises when the sum is zero.
\<close>

definition determine_skill_preferences ::
  "real stream \<Rightarrow> error + ((skill \<Rightarrow> real) \<times> real stream)" where
  "determine_skill_preferences g =
     (case uniform 0.1 0.3 g of (ph, g1) \<Rightarrow>
      case uniform 0.2 0.4 g1 of (pm, g2) \<Rightarrow>
      case uniform 0.4 0.7 g2 of (pl, g3) \<Rightarrow>
        let total = ph + pm + pl
        in if total = 0 then Inl ZeroDivisionError
           else Inr (\<lambda>s. (case s of High \<Rightarrow> ph | Medium \<Rightarrow> pm | Low \<Rightarrow> pl) / total, g3))"

text \<open>\<open>SimpleFirmAgent.__init__\<close>.\<close>

definition firm_init :: "real stream \<Rightarrow> error + (firm \<times> real stream)" where
  "firm_init g =
     (case uniform 50000 200000 g of (cap, g1) \<Rightarrow>
      case randint 30 80 g1 of (maxw, g2) \<Rightarrow>
      case determine_skill_preferences g2 of
        Inl e \<Rightarrow> Inl e
      | Inr (prefs, g3) \<Rightarrow>
         (case uniform 25 45 g3 of (rh, g4) \<Rightarrow>
          case uniform 15 25 g4 of (rm, g5) \<Rightarrow>
          case uniform 8 18 g5 of (rl, g6) \<Rightarrow>
          case uniform 0.20 0.35 g6 of (tax, g7) \<Rightarrow>
          case uniform 0.65 0.75 g7 of (share, g8) \<Rightarrow>
          case uniform 0.9 1.1 g8 of (pf, g9) \<Rightarrow>
          case uniform 12.0 20.0 g9 of (bw, g10) \<Rightarrow>
          case uniform 0.9 1.1 g10 of (dm, g11) \<Rightarrow>
          case uniform 0.4 0.6 g11 of (ha, g12) \<Rightarrow>
          case uniform 0.1 0.2 g12 of (ft, g13) \<Rightarrow>
            Inr (\<lparr>capital = cap, profit = 0, total_surplus_value = 0, wages_paid = 0,
                   taxes_paid = 0, workers = [], max_workers = maxw,
                   preferred_skill_mix = prefs,
                   wage_rates = (\<lambda>s. case s of High \<Rightarrow> rh | Medium \<Rightarrow> rm | Low \<Rightarrow> rl),
                   tax_rate = tax, wage_share = share, surplus_value_rate = 1 - share,
                   productivity_factor = pf, base_wage_rate = bw, demand_multiplier = dm,
                   hiring_aggressiveness = ha, firing_threshold = ft\<rparr>, g13)))"

text \<open>
  The two creation loops of \<open>SimpleCapitalistModel.__init__\<close>. The worker created in
  round \<open>i\<close> is stored under \<open>i\<close>, and so is the firm created in round \<open>i\<close>; the
  field \<open>unique_id\<close>, which nothing reads, is left out.
\<close>

fun create_workers :: "nat list \<Rightarrow> economy \<Rightarrow> economy" where
  "create_workers [] m = m"
| "create_workers (i # rest) m =
     (case worker_init 40 (rng m) of
        (w, g') \<Rightarrow>
          create_workers rest
            (m\<lparr>wobj := (wobj m)(i := w), worker_agents := worker_agents m @ [i],
               unemployed_workers := unemployed_workers m @ [i], rng := g'\<rparr>))"

fun create_firms :: "nat list \<Rightarrow> economy \<Rightarrow> error + economy" where
  "create_firms [] m = Inr m"
| "create_firms (i # rest) m =
     (case firm_init (rng m) of
        Inl e \<Rightarrow> Inl e
      | Inr (f, g') \<Rightarrow>
          create_firms rest
            (m\<lparr>fobj := (fobj m)(i := f), firm_agents := firm_agents m @ [i], rng := g'\<rparr>))"

text \<open>
  \<open>SimpleCapitalistModel.__init__\<close>. \<open>range(n)\<close> is empty for \<open>n \<le> 0\<close>. The stores
  start from the objects \<open>w0\<close> and \<open>f0\<close> in every cell; no list refers to a cell before
  an agent is created in it. After the first collection, the constructor logs the skill
  distribution and the share of firm owners, \<open>firm_owners / num_workers * 100\<close>, the only
  division of the constructor outside a handler.
\<close>

definition model_init ::
  "worker \<Rightarrow> firm \<Rightarrow> int \<Rightarrow> int \<Rightarrow> int \<Rightarrow> real stream \<Rightarrow> error + economy" where
  "model_init w0 f0 n_workers n_firms n_owners g =
     (let m0 = \<lparr>num_workers = n_workers, num_firms = n_firms, num_owners = n_owners,
                price_index = 1.0, inflation_rate = 0.02,
                employed_workers = [], unemployed_workers = [],
                worker_agents = [], firm_agents = [],
                wobj = (\<lambda>_. w0), fobj = (\<lambda>_. f0), rng = g\<rparr>;
          m1 = create_workers [0..<nat n_workers] m0
      in case create_firms [0..<nat n_firms] m1 of
           Inl e \<Rightarrow> Inl e
         | Inr m2 \<Rightarrow>
             let m3 = collect m2;
                 firm_owners = length (filter owns_firm (get_workers m3))
             in case py_div (real firm_owners) (real_of_int n_workers) of
                  Inl e \<Rightarrow> Inl e
                | Inr share \<Rightarrow> Inr m3)"

text \<open>
  The estimator as the specification words it, for comparison with \<open>compute_gini\<close>:
  \<open>B\<close> is the sum over the positions \<open>i\<close> of the ascending wealth values of
  \<open>x[i] * (n - i)\<close>, divided by \<open>n\<close> times the total; the result is \<open>1 + 1/n - 2B\<close>,
  and a zero divisor is a division by zero.
\<close>

definition gini_spec :: "real list \<Rightarrow> error + real" where
  "gini_spec ws =
     (let x = sort ws; n = length x
      in if real n * sum_list x = 0 then Inl ZeroDivisionError
         else Inr (1 + 1 / real n
                   - 2 * ((\<Sum>i<n. x ! i * (real n - real i)) / (real n * sum_list x))))"

section \<open>The Gini coefficient in double precision\<close>

text \<open>
  A Python float is an IEEE 754 double, and every arithmetic operation returns the double
  nearest to the exact result, a tie going to the even significand. \<open>fl\<close> is that
  rounding, for a significand of 53 bits; the exponent is not bounded, so overflow and
  subnormal numbers are not modelled.
\<close>

definition round_half_even :: "real \<Rightarrow> int" where
  "round_half_even y =
     (let f = \<lfloor>y\<rfloor>; d = y - real_of_int f
      in if d < 1 / 2 then f else if 1 / 2 < d then f + 1 else if even f then f else f + 1)"

definition fl :: "real \<Rightarrow> real" where
  "fl x =
     (if x = 0 then 0
      else let e = \<lfloor>log 2 \<bar>x\<bar>\<rfloor> - 52
           in real_of_int (round_half_even (x / 2 powr real_of_int e)) * 2 powr real_of_int e)"

text \<open>
  \<open>sum(...)\<close> adds from left to right, starting from 0, each addition rounded. (From
  version 3.12 on CPython carries a compensation term along; on one or two summands the
  result is the same.)
\<close>

fun fsum :: "real \<Rightarrow> real list \<Rightarrow> real" where
  "fsum acc [] = acc"
| "fsum acc (t # ts) = fsum (fl (acc + t)) ts"

text \<open>
  Lines 214 to 218 with the rounding of each operation: the products \<open>xi * (n - i)\<close>,
  the two sums, \<open>n * sum(x)\<close>, the division, which raises on a zero divisor, \<open>1 / n\<close>,
  \<open>1 + (1 / n)\<close>, \<open>2 * B\<close> and the subtraction. The wealth values are doubles.
\<close>

definition compute_gini_double :: "economy \<Rightarrow> error + real" where
  "compute_gini_double m =
     (let workers_wealth = map (\<lambda>i. wealth (wobj m i)) (worker_agents m);
          x = sort workers_wealth;
          n = length x;
          num = fsum 0 (map (\<lambda>(i, xi). fl (xi * real (n - i))) (enumerate 0 x));
          den = fl (real n * fsum 0 x)
      in if den = 0 then Inl ZeroDivisionError
         else let B = fl (num / den)
              in Inr (fl (fl (1 + fl (1 / real n)) - fl (2 * B))))"

section \<open>Sample states\<close>

text \<open>
  A medium-skill worker out of work, with savings of 1000 and no debt, and a firm without
  workers; the concrete states below are built from them.
\<close>

definition worker0 :: worker where
  "worker0 =
     \<lparr>work_hours = 40, skill_level = Medium, worked_overtime = 0, wage = 0,
      is_employed = False, employer = None, wealth = 1000, debt = 0,
      total_wages_earned = 0, total_taxes_paid = 0, weeks_unemployed = 0,
      financial_stress = 0, debt_capacity = 10000, interest_rate = 0.26,
      is_bankrupt = False, productivity = 1, owns_firm = False, basic_needs = 500\<rparr>"

definition firm0 :: firm where
  "firm0 =
     \<lparr>capital = 100000, profit = 0, total_surplus_value = 0, wages_paid = 0, taxes_paid = 0,
      workers = [], max_workers = 31,
      preferred_skill_mix = (\<lambda>s. case s of High \<Rightarrow> 0.2 | Medium \<Rightarrow> 0.3 | Low \<Rightarrow> 0.5),
      wage_rates = (\<lambda>s. case s of High \<Rightarrow> 30 | Medium \<Rightarrow> 20 | Low \<Rightarrow> 10),
      tax_rate = 0.25, wage_share = 0.7, surplus_value_rate = 0.3,
      productivity_factor = 1, base_wage_rate = 15, demand_multiplier = 1,
      hiring_aggressiveness = 0.5, firing_threshold = 0.15\<rparr>"

text \<open>
  An economy of the workers \<open>0, \<dots>, n - 1\<close>, all out of work, and one firm, with the
  given stores and random source.
\<close>

definition economy0 :: "nat \<Rightarrow> (nat \<Rightarrow> worker) \<Rightarrow> (nat \<Rightarrow> firm) \<Rightarrow> real stream \<Rightarrow> economy" where
  "economy0 n ws fs g =
     \<lparr>num_workers = int n, num_firms = 1, num_owners = 0, price_index = 1,
      inflation_rate = 0.02, employed_workers = [], unemployed_workers = [0..<n],
      worker_agents = [0..<n], firm_agents = [0], wobj = ws, fobj = fs, rng = g\<rparr>"

text \<open>Scenario A: two workers, each with wealth 1000 and no debt, and one firm.\<close>

definition scenario_a :: economy where
  "scenario_a = economy0 2 (\<lambda>_. worker0) (\<lambda>_. firm0) (sconst 0)"

text \<open>The same worker in other situations.\<close>

definition worker_broke :: worker where
  "worker_broke = worker0\<lparr>wealth := 0\<rparr>"

definition worker_employed :: worker where
  "worker_employed = worker0\<lparr>is_employed := True, employer := Some 0, wage := 800\<rparr>"

text \<open>A low-skill worker without savings, out of work for 30 weeks.\<close>

definition worker_long_unemployed :: worker where
  "worker_long_unemployed =
     worker0\<lparr>skill_level := Low, basic_needs := 400, wealth := 0, weeks_unemployed := 30\<rparr>"

text \<open>Two workers without any wealth, and one firm.\<close>

definition scenario_all_broke :: economy where
  "scenario_all_broke = economy0 2 (\<lambda>_. worker_broke) (\<lambda>_. firm0) (sconst 0)"

section \<open>Invariants\<close>

text \<open>
  What the non-negativity of wealth and debt rests on: the fields themselves, and the
  parameters of the worker that the updates multiply them with.
\<close>

definition worker_inv :: "worker \<Rightarrow> bool" where
  "worker_inv w =
     (0 \<le> wealth w \<and> 0 \<le> debt w \<and> 0 \<le> interest_rate w \<and> 0 \<le> debt_capacity w \<and>
      0 \<le> work_hours w)"

text \<open>The fields of a worker that the code divides by.\<close>

definition divisors_ok :: "worker \<Rightarrow> bool" where
  "divisors_ok w = (work_hours w \<noteq> 0 \<and> debt_capacity w \<noteq> 0 \<and> basic_needs w \<noteq> 0)"

text \<open>A firm whose roster is one employed worker.\<close>

definition scenario_retained :: economy where
  "scenario_retained =
     (economy0 1 (\<lambda>_. worker_employed) (\<lambda>_. firm0\<lparr>workers := [0]\<rparr>) (sconst 0))
       \<lparr>employed_workers := [0], unemployed_workers := []\<rparr>"

text \<open>
  Repeated firing decisions of one firm with nothing else in between: a sequence of steps
  in which firing is the only change of the roster.
\<close>

fun firing_rounds :: "nat \<Rightarrow> nat \<Rightarrow> economy \<Rightarrow> error + economy" where
  "firing_rounds 0 fid m = Inr m"
| "firing_rounds (Suc n) fid m =
     (case firing_decision fid m of Inl e \<Rightarrow> Inl e | Inr m' \<Rightarrow> firing_rounds n fid m')"

text \<open>Scenario D: a firm with a profit of -600 and a roster of six workers.\<close>

definition scenario_d :: economy where
  "scenario_d =
     (economy0 6 (\<lambda>_. worker_employed)
        (\<lambda>_. firm0\<lparr>profit := - 600, workers := [0, 1, 2, 3, 4, 5]\<rparr>) (sconst 0))
       \<lparr>employed_workers := [0, 1, 2, 3, 4, 5], unemployed_workers := []\<rparr>"

text \<open>
  A firm with room for 31 workers and a roster of 30 entries, the employed workers 1 to 30,
  and worker 0 out of work.
\<close>

definition scenario_full :: economy where
  "scenario_full =
     (economy0 31 (\<lambda>i. if i = 0 then worker0 else worker_employed)
        (\<lambda>_. firm0\<lparr>workers := [1..<31]\<rparr>) (sconst 0))
       \<lparr>employed_workers := [1..<31], unemployed_workers := [0]\<rparr>"

text \<open>
  Two firms and four workers at the start of the firms' turn of a week. Firm 1 hired the
  workers 0 to 3 in earlier weeks, each hire leaving two entries on its roster, and then
  fired worker 0, which removed one of the two entries: worker 0 is out of work and still
  on the roster of firm 1. The workers 1 to 3 are low-skill workers employed by firm 1.
  Firm 0 has no worker yet.
\<close>

definition worker_fired :: worker where
  "worker_fired = worker0\<lparr>total_wages_earned := 35200, total_taxes_paid := 4224\<rparr>"

definition worker_low :: worker where
  "worker_low = worker0\<lparr>skill_level := Low, productivity := 0.7, basic_needs := 400,
     is_employed := True, employer := Some 1, wage := 900\<rparr>"

definition scenario_two_firms :: economy where
  "scenario_two_firms =
     (economy0 4 (\<lambda>i. if i = 0 then worker_fired else worker_low)
        (\<lambda>j. if j = 1 then firm0\<lparr>workers := [0, 1, 1, 2, 2, 3, 3]\<rparr> else firm0) (sconst 0))
       \<lparr>num_firms := 2, firm_agents := [0, 1],
        employed_workers := [1, 2, 3], unemployed_workers := [0]\<rparr>"


text \<open>
  The invariant of the amounts. \<open>nonneg_on W F\<close> says that every worker in \<open>W\<close>
  satisfies \<open>worker_inv\<close>, that every firm in \<open>F\<close> has non-negative hourly wage
  rates, and that the random source yields values in \<open>[0, 1)\<close>. \<open>econ_inv\<close> is this
  for the workers and the firms of the economy.
\<close>

definition nonneg_on :: "nat set \<Rightarrow> nat set \<Rightarrow> economy \<Rightarrow> bool" where
  "nonneg_on W F m =
     ((\<forall>i\<in>W. worker_inv (wobj m i)) \<and> (\<forall>j\<in>F. \<forall>s. 0 \<le> wage_rates (fobj m j) s) \<and>
      rng_ok (rng m))"

definition econ_inv :: "economy \<Rightarrow> bool" where
  "econ_inv m = nonneg_on (set (worker_agents m)) (set (firm_agents m)) m"

section \<open>The Gini coefficient\<close>

lemma sum_list_enumerate:
  "sum_list (map (\<lambda>(i, xi). f i xi) (enumerate k xs)) = (\<Sum>i<length xs. f (k + i) (xs ! i))"
proof (induction xs arbitrary: k)
  case Nil
  then show ?case by simp
next
  case (Cons a xs)
  have "(\<Sum>i<length (a # xs). f (k + i) ((a # xs) ! i)) =
        f k a + (\<Sum>i<length xs. f (Suc k + i) (xs ! i))"
    by (simp add: sum.lessThan_Suc_shift del: sum.lessThan_Suc)
  with Cons.IH [of "Suc k"] show ?case by simp
qed

lemma compute_gini_gini_spec:
  "compute_gini m = gini_spec (map (\<lambda>i. wealth (wobj m i)) (worker_agents m))"
  by (simp add: compute_gini_def gini_spec_def Let_def py_div_def sum_list_enumerate
      del: of_nat_mult mult_eq_0_iff)

lemma sort_replicate: "sort (replicate n (c::real)) = replicate n c"
  by (simp add: sorted_sort_id sorted_replicate)

lemma sum_descending: "(\<Sum>i<n. real n - real i) = real n * (real n + 1) / 2"
proof (induction n)
  case 0
  show ?case by simp
next
  case (Suc n)
  have "(\<Sum>i<Suc n. real (Suc n) - real i) = (\<Sum>i<Suc n. (real n - real i) + 1)"
    by (simp add: algebra_simps)
  also have "\<dots> = (\<Sum>i<Suc n. real n - real i) + real (Suc n)"
    by (simp add: sum.distrib)
  also have "\<dots> = real n * (real n + 1) / 2 + real (Suc n)"
    using Suc by simp
  finally show ?case by (simp add: field_simps)
qed

lemma gini_spec_equal:
  assumes "0 < n" "0 < c"
  shows "gini_spec (replicate n c) = Inr 0"
proof -
  have s: "(\<Sum>i<n. replicate n c ! i * (real n - real i)) = c * (real n * (real n + 1) / 2)"
  proof -
    have "(\<Sum>i<n. replicate n c ! i * (real n - real i)) = (\<Sum>i<n. c * (real n - real i))"
      by (rule sum.cong) simp_all
    also have "\<dots> = c * (\<Sum>i<n. real n - real i)"
      by (simp add: sum_distrib_left)
    finally show ?thesis by (simp add: sum_descending)
  qed
  have nz: "real n * sum_list (replicate n c) \<noteq> 0"
    using assms by (simp add: sum_list_replicate)
  have "1 + 1 / real n - 2 * (c * (real n * (real n + 1) / 2) / (real n * (real n * c))) = 0"
    using assms by (simp add: field_simps)
  then have "1 + 1 / real n
      - 2 * ((\<Sum>i<n. replicate n c ! i * (real n - real i)) / (real n * sum_list (replicate n c))) = 0"
    by (simp only: s sum_list_replicate)
  with nz show ?thesis
    by (simp add: gini_spec_def Let_def sort_replicate del: of_nat_mult mult_eq_0_iff)
qed

lemma wealth_all_equal:
  assumes "\<forall>i \<in> set (worker_agents m). wealth (wobj m i) = c"
  shows "map (\<lambda>i. wealth (wobj m i)) (worker_agents m) = replicate (length (worker_agents m)) c"
proof -
  have "map (\<lambda>i. wealth (wobj m i)) (worker_agents m) = map (\<lambda>_. c) (worker_agents m)"
    using assms by (intro map_cong) simp_all
  then show ?thesis by (simp add: map_replicate_const)
qed

text \<open>
  In exact arithmetic \<open>compute_gini\<close> is the estimator of the specification on the wealth
  values of the economy's workers, and on a population whose wealth values are all the
  same positive number it returns 0.
\<close>

lemma compute_gini_estimator:
  "compute_gini m = gini_spec (map (\<lambda>i. wealth (wobj m i)) (worker_agents m)) \<and>
   (worker_agents m \<noteq> [] \<and> 0 < c \<and> (\<forall>i \<in> set (worker_agents m). wealth (wobj m i) = c)
      \<longrightarrow> compute_gini m = Inr 0)"
proof (intro conjI impI)
  show "compute_gini m = gini_spec (map (\<lambda>i. wealth (wobj m i)) (worker_agents m))"
    by (rule compute_gini_gini_spec)
next
  assume h: "worker_agents m \<noteq> [] \<and> 0 < c \<and> (\<forall>i \<in> set (worker_agents m). wealth (wobj m i) = c)"
  then have "map (\<lambda>i. wealth (wobj m i)) (worker_agents m)
      = replicate (length (worker_agents m)) c"
    by (simp add: wealth_all_equal)
  moreover have "0 < length (worker_agents m)" using h by simp
  ultimately show "compute_gini m = Inr 0"
    using h by (simp add: compute_gini_gini_spec gini_spec_equal)
qed

lemma compute_gini_estimator_sample:
  "worker_agents scenario_a = [0, 1] \<and>
   wealth (wobj scenario_a 0) = 1000 \<and> wealth (wobj scenario_a 1) = 1000 \<and>
   compute_gini scenario_a = Inr 0"
proof -
  have ids: "worker_agents scenario_a = [0, 1]"
    by (simp add: scenario_a_def economy0_def upt_rec)
  have w: "wealth (wobj scenario_a 0) = 1000" "wealth (wobj scenario_a 1) = 1000"
    by (simp_all add: scenario_a_def economy0_def worker0_def)
  have eq: "\<forall>i \<in> set (worker_agents scenario_a). wealth (wobj scenario_a i) = 1000"
    using ids w by simp
  have ne: "worker_agents scenario_a \<noteq> []" using ids by simp
  have pos: "(0::real) < 1000" by simp
  from ne pos eq compute_gini_estimator [of scenario_a 1000]
  have "compute_gini scenario_a = Inr 0"
    by blast
  with ids w show ?thesis by simp
qed

section \<open>The aggregate queries and division by zero\<close>

lemma get_wage_share_returns: "\<exists>r. get_wage_share m = Inr r"
  by (simp add: get_wage_share_def Let_def py_div_def)

lemma total_exploitation_returns: "\<exists>r. total_exploitation ws acc = Inr r"
  by (induction ws arbitrary: acc) (auto simp: Let_def py_div_def)

lemma get_avg_exploitation_rate_returns: "\<exists>r. get_avg_exploitation_rate m = Inr r"
proof -
  obtain t where "total_exploitation (filter is_employed (get_workers m)) 0 = Inr t"
    using total_exploitation_returns by blast
  then show ?thesis
    by (simp add: get_avg_exploitation_rate_def Let_def py_div_def)
qed

lemma get_avg_debt_to_income_returns: "\<exists>r. get_avg_debt_to_income m = Inr r"
  by (simp add: get_avg_debt_to_income_def Let_def py_div_def)

text \<open>
  C2. The wage share, the average exploitation rate and the average debt-to-income ratio
  guard their divisions (the three lemmas above), but \<open>compute_gini\<close> does not: on an
  economy of two workers whose wealth is 0 it raises ZeroDivisionError.
\<close>

theorem compute_gini_all_broke:
  "wealth (wobj scenario_all_broke 0) = 0 \<and> wealth (wobj scenario_all_broke 1) = 0 \<and>
   compute_gini scenario_all_broke = Inl ZeroDivisionError"
  by (simp add: compute_gini_def scenario_all_broke_def economy0_def worker_broke_def
      worker0_def py_div_def Let_def upt_rec)

section \<open>The worker\<close>

text \<open>
  C4. The reservation wage of a low-skill worker without debt who has been out of work
  for 30 weeks is -160: the factor for the duration of unemployment is
  \<open>min(0.7, 1 - 30 * 0.05) = -0.5\<close>, below 0.7, and the result is below
  \<open>0.7 * 0.6 * 8 * 40\<close>.
\<close>

theorem reservation_wage_long_unemployed:
  "get_reservation_wage worker_long_unemployed = Inr (- 160) \<and>
   - 160 < 0.7 * 0.6 * base_reservation (skill_level worker_long_unemployed)
             * work_hours worker_long_unemployed"
  by (simp add: get_reservation_wage_def worker_long_unemployed_def worker0_def Let_def)

text \<open>
  \<open>work_for_firm\<close> on a worker who is employed returns at once: whatever the firm and
  the wage, the whole state is unchanged, and with it every field of the worker.
\<close>

lemma work_for_firm_employed_noop:
  "is_employed (wobj m wid) \<Longrightarrow> work_for_firm wid fid wage_rate m = (None, m)"
  by (simp add: work_for_firm_def Let_def)

lemma work_for_firm_employed_noop_sample:
  "is_employed (wobj (economy0 1 (\<lambda>_. worker_employed) (\<lambda>_. firm0) (sconst 0)) 0) \<and>
   work_for_firm 0 0 25 (economy0 1 (\<lambda>_. worker_employed) (\<lambda>_. firm0) (sconst 0))
     = (None, economy0 1 (\<lambda>_. worker_employed) (\<lambda>_. firm0) (sconst 0))"
proof -
  have e: "is_employed (wobj (economy0 1 (\<lambda>_. worker_employed) (\<lambda>_. firm0) (sconst 0)) 0)"
    by (simp add: economy0_def worker_employed_def)
  from e work_for_firm_employed_noop [OF e, of 0 25] show ?thesis by simp
qed

lemma calculate_financial_stress_fields:
  assumes "calculate_financial_stress w = Inr w'"
  shows "w' = w\<lparr>financial_stress := financial_stress w'\<rparr>"
  using assms
  by (auto simp: calculate_financial_stress_def Let_def split: sum.splits if_splits)

lemma calculate_financial_stress_returns:
  assumes "debt w > 0 \<longrightarrow> debt_capacity w \<noteq> 0" "basic_needs w \<noteq> 0"
  shows "\<exists>s. calculate_financial_stress w = Inr (w\<lparr>financial_stress := s\<rparr>)"
  using assms
  by (auto simp: calculate_financial_stress_def py_div_def Let_def)

lemma calculate_financial_stress_inv:
  assumes "calculate_financial_stress w = Inr w'" "worker_inv w"
  shows "worker_inv w'"
proof -
  from assms(1) have "w' = w\<lparr>financial_stress := financial_stress w'\<rparr>"
    by (rule calculate_financial_stress_fields)
  then obtain s where "w' = w\<lparr>financial_stress := s\<rparr>" ..
  with assms(2) show ?thesis by (simp add: worker_inv_def)
qed

lemma pay_basic_needs_inv: "worker_inv w \<Longrightarrow> worker_inv (pay_basic_needs w)"
  by (simp add: pay_basic_needs_def worker_inv_def Let_def)

lemma pay_basic_needs_shortfall:
  assumes "\<not> is_employed w" "wealth w < basic_needs w"
  shows "pay_basic_needs w =
    w\<lparr>weeks_unemployed := weeks_unemployed w + 1,
      debt := debt w + (basic_needs w - wealth w), wealth := 0\<rparr>"
  using assms by (simp add: pay_basic_needs_def Let_def)

lemma handle_debt_mechanics_unfold:
  assumes "0 < debt w"
  defines "w1 \<equiv> w\<lparr>debt := debt w + debt w * (interest_rate w / 52)\<rparr>"
  defines "mp \<equiv> max (debt w1 * 0.02) 20"
  defines "w2 \<equiv> (if wealth w1 \<ge> mp
                  then w1\<lparr>wealth := wealth w1 - min mp (debt w1),
                          debt := debt w1 - min mp (debt w1)\<rparr>
                  else w1)"
  shows "handle_debt_mechanics w =
           (if debt w2 > debt_capacity w2 \<and> get_unmet_needs w2 > basic_needs w2 * 2
            then w2\<lparr>is_bankrupt := True, debt := debt_capacity w2\<rparr> else w2)"
  using assms(1) unfolding handle_debt_mechanics_def Let_def w2_def mp_def w1_def
  by simp

lemma handle_debt_mechanics_inv:
  assumes "worker_inv w"
  shows "worker_inv (handle_debt_mechanics w)"
proof (cases "debt w > 0")
  case False
  with assms show ?thesis by (simp add: handle_debt_mechanics_def)
next
  case True
  define w1 where "w1 = w\<lparr>debt := debt w + debt w * (interest_rate w / 52)\<rparr>"
  define mp where "mp = max (debt w1 * 0.02) 20"
  define w2 where "w2 = (if wealth w1 \<ge> mp
                  then w1\<lparr>wealth := wealth w1 - min mp (debt w1),
                          debt := debt w1 - min mp (debt w1)\<rparr>
                  else w1)"
  have h: "handle_debt_mechanics w =
           (if debt w2 > debt_capacity w2 \<and> get_unmet_needs w2 > basic_needs w2 * 2
            then w2\<lparr>is_bankrupt := True, debt := debt_capacity w2\<rparr> else w2)"
    unfolding w2_def mp_def w1_def by (rule handle_debt_mechanics_unfold [OF True])
  have "0 \<le> debt w * (interest_rate w / 52)"
    using assms True by (simp add: worker_inv_def)
  then have i1: "worker_inv w1"
    using assms by (simp add: w1_def worker_inv_def)
  have i2: "worker_inv w2"
    using i1 by (auto simp: w2_def worker_inv_def)
  show ?thesis
    unfolding h using i2 by (auto simp: worker_inv_def)
qed

lemma handle_debt_mechanics_no_payment:
  assumes "0 < debt w" "wealth w = 0" "0 \<le> basic_needs w"
  shows "handle_debt_mechanics w = w\<lparr>debt := debt w + debt w * (interest_rate w / 52)\<rparr>"
  using assms
  by (simp add: handle_debt_mechanics_def Let_def get_unmet_needs_def)


lemma rng_ok_shd: "rng_ok g \<Longrightarrow> 0 \<le> shd g \<and> shd g < 1"
  by (simp add: rng_ok_def shd_sset)

lemma rng_ok_stl: "rng_ok g \<Longrightarrow> rng_ok (stl g)"
  by (auto simp: rng_ok_def dest: stl_sset)

lemma decay_inv:
  "worker_inv w \<Longrightarrow> worker_inv (w\<lparr>wealth := wealth w * (1 - decay_rate (skill_level w))\<rparr>)"
  by (cases "skill_level w") (simp_all add: worker_inv_def)

lemma worker_step_unfold:
  assumes "calculate_financial_stress w = Inr w0"
  defines "w2 \<equiv> handle_debt_mechanics (pay_basic_needs w0)"
  defines "w3 \<equiv> (if \<not> is_employed w2 \<and> wealth w2 > 0
                  then w2\<lparr>wealth := wealth w2 * (1 - decay_rate (skill_level w2))\<rparr>
                  else w2)"
  shows "worker_step w g =
           (if skill_level w3 = High \<and> wealth w3 > 10000
            then (if shd g < 0.3
                  then Inr (w3\<lparr>wealth := wealth w3 * (1.001 + (1.003 - 1.001) * shd (stl g))\<rparr>,
                            stl (stl g))
                  else Inr (w3, stl g))
            else Inr (w3, g))"
  unfolding worker_step_def Let_def w3_def w2_def random_def uniform_def
  by (simp add: assms(1))

lemma worker_step_inv:
  assumes "worker_step w g = Inr (w', g')" "worker_inv w" "rng_ok g"
  shows "worker_inv w' \<and> rng_ok g'"
proof -
  from assms(1) obtain w0 where c: "calculate_financial_stress w = Inr w0"
    by (auto simp: worker_step_def split: sum.splits)
  define w2 where "w2 = handle_debt_mechanics (pay_basic_needs w0)"
  define w3 where "w3 = (if \<not> is_employed w2 \<and> wealth w2 > 0
                  then w2\<lparr>wealth := wealth w2 * (1 - decay_rate (skill_level w2))\<rparr>
                  else w2)"
  have i2: "worker_inv w2"
    unfolding w2_def
    using calculate_financial_stress_inv [OF c assms(2)]
    by (intro handle_debt_mechanics_inv pay_basic_needs_inv)
  have i3: "worker_inv w3"
    unfolding w3_def using i2 by (simp add: decay_inv)
  have g1: "rng_ok (stl g)" "rng_ok (stl (stl g))" "0 \<le> shd (stl g)"
    using assms(3) by (simp_all add: rng_ok_stl rng_ok_shd)
  have "0 \<le> wealth w3 * (1.001 + (1.003 - 1.001) * shd (stl g))"
    using i3 g1(3) by (simp add: worker_inv_def)
  then have i4: "worker_inv (w3\<lparr>wealth := wealth w3 * (1.001 + (1.003 - 1.001) * shd (stl g))\<rparr>)"
    using i3 by (simp add: worker_inv_def)
  have "worker_step w g =
           (if skill_level w3 = High \<and> wealth w3 > 10000
            then (if shd g < 0.3
                  then Inr (w3\<lparr>wealth := wealth w3 * (1.001 + (1.003 - 1.001) * shd (stl g))\<rparr>,
                            stl (stl g))
                  else Inr (w3, stl g))
            else Inr (w3, g))"
    unfolding w3_def w2_def by (rule worker_step_unfold [OF c])
  with assms(1) have "(w', g') = (w3\<lparr>wealth := wealth w3 * (1.001 + (1.003 - 1.001) * shd (stl g))\<rparr>,
                            stl (stl g)) \<or> (w', g') = (w3, stl g) \<or> (w', g') = (w3, g)"
    by (auto split: if_splits)
  with i3 i4 g1 assms(3) show ?thesis by auto
qed

lemma worker_step_shortfall:
  assumes "\<not> is_employed w" "wealth w = 0" "debt w = 0" "basic_needs w = 500"
  shows "\<exists>w'. worker_step w g = Inr (w', g) \<and> wealth w' = 0 \<and>
               debt w' = 500 + 500 * (interest_rate w / 52)"
proof -
  obtain s where c: "calculate_financial_stress w = Inr (w\<lparr>financial_stress := s\<rparr>)"
    using calculate_financial_stress_returns [of w] assms by auto
  define w0 where "w0 = w\<lparr>financial_stress := s\<rparr>"
  define w1 where "w1 = w0\<lparr>weeks_unemployed := weeks_unemployed w0 + 1,
      debt := debt w0 + (basic_needs w0 - wealth w0), wealth := 0\<rparr>"
  have p: "pay_basic_needs w0 = w1"
    unfolding w1_def using assms by (intro pay_basic_needs_shortfall) (simp_all add: w0_def)
  have f1: "debt w1 = 500" "wealth w1 = 0" "basic_needs w1 = 500" "\<not> is_employed w1"
    "interest_rate w1 = interest_rate w"
    using assms by (simp_all add: w1_def w0_def)
  define w2 where "w2 = w1\<lparr>debt := debt w1 + debt w1 * (interest_rate w1 / 52)\<rparr>"
  have h: "handle_debt_mechanics w1 = w2"
    unfolding w2_def using f1 by (intro handle_debt_mechanics_no_payment) simp_all
  have f2: "wealth w2 = 0" "debt w2 = 500 + 500 * (interest_rate w / 52)"
    using f1 by (simp_all add: w2_def)
  have "worker_step w g = Inr (w2, g)"
    using worker_step_unfold [OF c, of g] f2(1)
    by (simp add: w0_def [symmetric] p h)
  with f2 show ?thesis by blast
qed

lemma worker_broke_fields:
  "\<not> is_employed worker_broke" "wealth worker_broke = 0" "debt worker_broke = 0"
  "basic_needs worker_broke = 500" "interest_rate worker_broke = 0.26"
  by (simp_all add: worker_broke_def worker0_def)

text \<open>
  C5, as amended. For a worker out of work with no wealth, no debt and basic needs of 500,
  one step returns, leaves the wealth at 0 and the random source untouched, and leaves a
  debt of 500 plus one week of interest on it: the shortfall becomes debt, and the debt
  mechanics of the same step charge interest on it.
\<close>

theorem worker_step_needs_shortfall:
  "\<not> is_employed w \<and> wealth w = 0 \<and> debt w = 0 \<and> basic_needs w = 500 \<longrightarrow>
   (\<exists>w'. worker_step w g = Inr (w', g) \<and> wealth w' = 0 \<and>
          debt w' = 500 + 500 * (interest_rate w / 52))"
  using worker_step_shortfall by blast

theorem worker_step_needs_shortfall_witness:
  "\<not> is_employed worker_broke \<and> wealth worker_broke = 0 \<and> debt worker_broke = 0 \<and>
   basic_needs worker_broke = 500 \<and>
   (\<exists>w'. worker_step worker_broke (sconst 0) = Inr (w', sconst 0) \<and> wealth w' = 0 \<and>
          debt w' = 1005 / 2)"
  using worker_step_needs_shortfall [of worker_broke "sconst 0"]
  by (simp add: worker_broke_fields)

text \<open>
  C5, as stated, fails: at an interest rate of 26 percent the debt after the step is
  502.5, not 500.
\<close>

theorem worker_step_scenario_b_debt:
  "\<not> (case worker_step worker_broke (sconst 0) of
         Inl e \<Rightarrow> False
       | Inr (w', g') \<Rightarrow> debt w' = 500 \<and> wealth w' = 0)"
proof -
  obtain w' where "worker_step worker_broke (sconst 0) = Inr (w', sconst 0)"
    "debt w' = 500 + 500 * (interest_rate worker_broke / 52)"
    using worker_step_shortfall [of worker_broke "sconst 0"] worker_broke_fields by blast
  then show ?thesis by (simp add: worker_broke_fields)
qed

section \<open>The firm: production\<close>

lemma work_for_firm_frame:
  "fobj (snd (work_for_firm wid fid r m)) = fobj m"
  "employed_workers (snd (work_for_firm wid fid r m)) = employed_workers m"
  "unemployed_workers (snd (work_for_firm wid fid r m)) = unemployed_workers m"
  "worker_agents (snd (work_for_firm wid fid r m)) = worker_agents m"
  "firm_agents (snd (work_for_firm wid fid r m)) = firm_agents m"
  by (simp_all add: work_for_firm_def Let_def get_tax_rate_def uniform_def)

lemma work_for_firm_other:
  "i \<noteq> wid \<Longrightarrow> wobj (snd (work_for_firm wid fid r m)) i = wobj m i"
  by (simp add: work_for_firm_def Let_def get_tax_rate_def uniform_def)

lemma work_for_firm_employed:
  "is_employed (wobj m i) \<Longrightarrow> wobj (snd (work_for_firm wid fid r m)) i = wobj m i"
  by (cases "i = wid") (simp_all add: work_for_firm_other, simp add: work_for_firm_def)

lemma calculate_worker_wage_offer_state:
  assumes "calculate_worker_wage_offer fid wid m = Inr (offer, m1)"
  shows "m1 = m\<lparr>rng := stl (rng m)\<rparr>"
  using assms
  by (auto simp: calculate_worker_wage_offer_def Let_def uniform_def
      split: sum.splits if_splits)

lemma production_loop_employed_frame:
  assumes "production_loop fid ws t m = Inr (t', m')" "is_employed (wobj m i)"
  shows "wobj m' i = wobj m i"
  using assms
proof (induction ws arbitrary: t m)
  case Nil
  then show ?case by simp
next
  case (Cons wid ws)
  from Cons.prems(1) obtain offer m1 hourly where
    o: "calculate_worker_wage_offer fid wid m = Inr (offer, m1)" and
    d: "py_div offer (work_hours (wobj m1 wid)) = Inr hourly"
    by (auto simp: Let_def split: sum.splits prod.splits)
  define m2 where "m2 = snd (work_for_firm wid fid hourly m1)"
  define m3 where "m3 = m2\<lparr>fobj := (fobj m2)
      (fid := (fobj m2 fid)\<lparr>wages_paid := wages_paid (fobj m2 fid) + wage (wobj m2 wid)\<rparr>)\<rparr>"
  have r: "production_loop fid ws (t + get_productive_value (wobj m wid)) m3 = Inr (t', m')"
    using Cons.prems(1) o d by (simp add: Let_def m3_def m2_def)
  have w1: "wobj m1 = wobj m"
    using calculate_worker_wage_offer_state [OF o] by simp
  have w3: "wobj m3 i = wobj m i"
    using Cons.prems(2) w1 by (simp add: m3_def m2_def work_for_firm_employed)
  with Cons.prems(2) have "is_employed (wobj m3 i)" by simp
  from Cons.IH [OF r this] w3 show ?case by simp
qed


lemma production_loop_all_employed:
  assumes "production_loop fid ws t m = Inr (t', m')" "\<forall>i \<in> set ws. is_employed (wobj m i)"
  shows "wobj m' = wobj m \<and>
         wages_paid (fobj m' fid) = wages_paid (fobj m fid) + (\<Sum>i\<leftarrow>ws. wage (wobj m i)) \<and>
         t' = t + (\<Sum>i\<leftarrow>ws. get_productive_value (wobj m i))"
  using assms
proof (induction ws arbitrary: t m)
  case Nil
  then show ?case by simp
next
  case (Cons wid ws)
  from Cons.prems(1) obtain offer m1 hourly where
    o: "calculate_worker_wage_offer fid wid m = Inr (offer, m1)" and
    d: "py_div offer (work_hours (wobj m1 wid)) = Inr hourly"
    by (auto simp: Let_def split: sum.splits prod.splits)
  have m1: "m1 = m\<lparr>rng := stl (rng m)\<rparr>"
    by (rule calculate_worker_wage_offer_state [OF o])
  have e: "is_employed (wobj m1 wid)" using Cons.prems(2) m1 by simp
  then have m2: "snd (work_for_firm wid fid hourly m1) = m1"
    by (simp add: work_for_firm_def)
  define m3 where "m3 = m1\<lparr>fobj := (fobj m1)
      (fid := (fobj m1 fid)\<lparr>wages_paid := wages_paid (fobj m1 fid) + wage (wobj m1 wid)\<rparr>)\<rparr>"
  have r: "production_loop fid ws (t + get_productive_value (wobj m wid)) m3 = Inr (t', m')"
    using Cons.prems(1) o d m2 by (simp add: Let_def m3_def)
  have w3: "wobj m3 = wobj m" by (simp add: m3_def m1)
  have p3: "wages_paid (fobj m3 fid) = wages_paid (fobj m fid) + wage (wobj m wid)"
    by (simp add: m3_def m1)
  have "\<forall>i \<in> set ws. is_employed (wobj m3 i)" using Cons.prems(2) w3 by simp
  from Cons.IH [OF r this] w3 p3 show ?case by simp
qed

lemma get_reservation_wage_returns:
  "debt_capacity w \<noteq> 0 \<Longrightarrow> \<exists>r. get_reservation_wage w = Inr r"
  by (simp add: get_reservation_wage_def py_div_def Let_def)

lemma calculate_worker_wage_offer_returns:
  assumes "debt_capacity (wobj m wid) \<noteq> 0"
  shows "\<exists>offer. calculate_worker_wage_offer fid wid m = Inr (offer, m\<lparr>rng := stl (rng m)\<rparr>)"
proof -
  obtain r where "get_reservation_wage (wobj m wid) = Inr r"
    using get_reservation_wage_returns [OF assms] by blast
  then show ?thesis
    by (simp add: calculate_worker_wage_offer_def Let_def uniform_def)
qed

lemma work_for_firm_divisors:
  "divisors_ok (wobj (snd (work_for_firm wid fid r m)) i) = divisors_ok (wobj m i)"
  by (cases "i = wid")
    (simp_all add: work_for_firm_other,
     simp add: work_for_firm_def Let_def get_tax_rate_def uniform_def divisors_ok_def)

lemma production_loop_returns:
  assumes "\<forall>i. divisors_ok (wobj m i)"
  shows "\<exists>t' m'. production_loop fid ws t m = Inr (t', m')"
  using assms
proof (induction ws arbitrary: t m)
  case Nil
  then show ?case by simp
next
  case (Cons wid ws)
  have dw: "divisors_ok (wobj m wid)" using Cons.prems by blast
  then obtain offer where
    o: "calculate_worker_wage_offer fid wid m = Inr (offer, m\<lparr>rng := stl (rng m)\<rparr>)"
    using calculate_worker_wage_offer_returns [of m wid fid] by (auto simp: divisors_ok_def)
  define m1 where "m1 = m\<lparr>rng := stl (rng m)\<rparr>"
  have d: "py_div offer (work_hours (wobj m1 wid)) = Inr (offer / work_hours (wobj m wid))"
    using dw by (simp add: py_div_def m1_def divisors_ok_def)
  define m2 where "m2 = snd (work_for_firm wid fid (offer / work_hours (wobj m wid)) m1)"
  define m3 where "m3 = m2\<lparr>fobj := (fobj m2)
      (fid := (fobj m2 fid)\<lparr>wages_paid := wages_paid (fobj m2 fid) + wage (wobj m2 wid)\<rparr>)\<rparr>"
  have "\<forall>i. divisors_ok (wobj m3 i)"
    using Cons.prems by (simp add: m3_def m2_def m1_def work_for_firm_divisors)
  from Cons.IH [OF this]
  obtain t' m' where
    "production_loop fid ws (t + get_productive_value (wobj m wid)) m3 = Inr (t', m')"
    by blast
  then show ?case
    using o d by (simp add: Let_def m3_def m2_def m1_def)
qed

lemma worker_employed_fields:
  "is_employed worker_employed" "wage worker_employed = 800"
  "divisors_ok worker_employed"
  by (simp_all add: worker_employed_def worker0_def divisors_ok_def)

lemma scenario_retained_fields:
  "wobj scenario_retained = (\<lambda>_. worker_employed)"
  "wages_paid (fobj scenario_retained 0) = 0"
  "workers (fobj scenario_retained 0) = [0]"
  by (simp_all add: scenario_retained_def economy0_def firm0_def)

text \<open>
  The production loop of \<open>step\<close> (run on the firm's roster after \<open>wages_paid\<close> is
  reset to 0) leaves every worker who is employed when it starts exactly as it was, wealth,
  wage and totals included: \<open>work_for_firm\<close> returns at once for them. When the whole
  roster is employed no worker changes at all, and \<open>wages_paid\<close> grows by the sum of the
  \<open>wage\<close> fields the workers already had.
\<close>

lemma production_loop_retained_workers:
  assumes "production_loop fid ws t m = Inr (t', m')"
  shows "(\<forall>i. is_employed (wobj m i) \<longrightarrow> wobj m' i = wobj m i) \<and>
         ((\<forall>i \<in> set ws. is_employed (wobj m i)) \<longrightarrow>
            wobj m' = wobj m \<and>
            wages_paid (fobj m' fid) = wages_paid (fobj m fid) + (\<Sum>i\<leftarrow>ws. wage (wobj m i)))"
  using production_loop_employed_frame [OF assms] production_loop_all_employed [OF assms]
  by blast

lemma production_loop_retained_workers_sample:
  "is_employed (wobj scenario_retained 0) \<and>
   (\<exists>t' m'. production_loop 0 (workers (fobj scenario_retained 0)) 0 scenario_retained
               = Inr (t', m') \<and>
            wobj m' 0 = wobj scenario_retained 0 \<and> wages_paid (fobj m' 0) = 800)"
proof -
  have e: "\<forall>i \<in> set [0::nat]. is_employed (wobj scenario_retained i)"
    by (simp add: scenario_retained_fields worker_employed_fields)
  have "\<forall>i. divisors_ok (wobj scenario_retained i)"
    by (simp add: scenario_retained_fields worker_employed_fields)
  then obtain t' m' where
    p: "production_loop 0 [0] 0 scenario_retained = Inr (t', m')"
    using production_loop_returns by blast
  from production_loop_retained_workers [OF p] e
  have "wobj m' = wobj scenario_retained"
    "wages_paid (fobj m' 0)
       = wages_paid (fobj scenario_retained 0) + (\<Sum>i\<leftarrow>[0]. wage (wobj scenario_retained i))"
    by blast+
  then have "wobj m' 0 = wobj scenario_retained 0" "wages_paid (fobj m' 0) = 800"
    by (simp_all add: scenario_retained_fields worker_employed_fields)
  with p e show ?thesis
    by (auto simp: scenario_retained_fields)
qed

section \<open>The firm: firing\<close>

lemma fire_worker_roster:
  "wid \<in> set (workers (fobj m fid)) \<Longrightarrow>
     workers (fobj (snd (fire_worker fid wid m)) fid) = remove1 wid (workers (fobj m fid))"
  by (simp add: fire_worker_def Let_def)

lemma fire_worker_profit:
  "profit (fobj (snd (fire_worker fid wid m)) fid) = profit (fobj m fid)"
  by (simp add: fire_worker_def Let_def)

lemma choice_member:
  assumes "xs \<noteq> []"
  shows "\<exists>x. choice xs g = Inr (x, stl g) \<and> x \<in> set xs"
proof -
  have "nat \<lfloor>shd g * real (length xs)\<rfloor> mod length xs < length xs"
    using assms by simp
  then show ?thesis using assms by (simp add: choice_def)
qed

lemma firing_decision_cases:
  "\<exists>m'. firing_decision fid m = Inr m' \<and> profit (fobj m' fid) = profit (fobj m fid) \<and>
     (if profit (fobj m fid) < - 500 \<and> 5 < length (workers (fobj m fid)) \<and> shd (rng m) < 0.45
      then \<exists>w \<in> set (workers (fobj m fid)).
             workers (fobj m' fid) = remove1 w (workers (fobj m fid))
      else workers (fobj m' fid) = workers (fobj m fid))"
proof (cases "profit (fobj m fid) < - 500 \<and> 5 < length (workers (fobj m fid)) \<and> shd (rng m) < 0.45")
  case False
  then show ?thesis
    by (auto simp: firing_decision_def Let_def random_def)
next
  case True
  then have "workers (fobj m fid) \<noteq> []" by auto
  then obtain w where c: "choice (workers (fobj m fid)) (stl (rng m)) = Inr (w, stl (stl (rng m)))"
    and w: "w \<in> set (workers (fobj m fid))"
    using choice_member by blast
  have "firing_decision fid m = Inr (snd (fire_worker fid w (m\<lparr>rng := stl (stl (rng m))\<rparr>)))"
    using True c by (simp add: firing_decision_def Let_def random_def)
  moreover have "workers (fobj (snd (fire_worker fid w (m\<lparr>rng := stl (stl (rng m))\<rparr>))) fid)
      = remove1 w (workers (fobj m fid))"
    using w by (simp add: fire_worker_roster)
  ultimately show ?thesis
    using True w by (auto simp: fire_worker_profit)
qed

lemma firing_decision_length:
  assumes "5 \<le> length (workers (fobj m fid))"
  shows "\<exists>m'. firing_decision fid m = Inr m' \<and>
              5 \<le> length (workers (fobj m' fid)) \<and>
              length (workers (fobj m' fid)) \<le> length (workers (fobj m fid))"
proof -
  obtain m' where d: "firing_decision fid m = Inr m'" and
    c: "if profit (fobj m fid) < - 500 \<and> 5 < length (workers (fobj m fid)) \<and> shd (rng m) < 0.45
      then \<exists>w \<in> set (workers (fobj m fid)).
             workers (fobj m' fid) = remove1 w (workers (fobj m fid))
      else workers (fobj m' fid) = workers (fobj m fid)"
    using firing_decision_cases [of fid m] by blast
  have "5 \<le> length (workers (fobj m' fid)) \<and>
        length (workers (fobj m' fid)) \<le> length (workers (fobj m fid))"
    using c assms by (auto simp: length_remove1 split: if_splits)
  with d show ?thesis by blast
qed

lemma firing_rounds_length:
  assumes "5 \<le> length (workers (fobj m fid))"
  shows "\<exists>m'. firing_rounds n fid m = Inr m' \<and>
              5 \<le> length (workers (fobj m' fid)) \<and>
              length (workers (fobj m' fid)) \<le> length (workers (fobj m fid))"
  using assms
proof (induction n arbitrary: m)
  case 0
  then show ?case by simp
next
  case (Suc n)
  obtain m1 where d: "firing_decision fid m = Inr m1" and
    l: "5 \<le> length (workers (fobj m1 fid))"
       "length (workers (fobj m1 fid)) \<le> length (workers (fobj m fid))"
    using firing_decision_length [OF Suc.prems] by blast
  from Suc.IH [OF l(1)] obtain m' where
    "firing_rounds n fid m1 = Inr m'" "5 \<le> length (workers (fobj m' fid))"
    "length (workers (fobj m' fid)) \<le> length (workers (fobj m1 fid))"
    by blast
  with d l show ?case by auto
qed


lemma scenario_d_fields:
  "profit (fobj scenario_d 0) = - 600" "workers (fobj scenario_d 0) = [0, 1, 2, 3, 4, 5]"
  "rng scenario_d = sconst 0"
  by (simp_all add: scenario_d_def economy0_def firm0_def)

text \<open>
  C8, as amended. The firing decision always returns. It removes a worker from the roster
  exactly when the profit is below -500, the roster has more than 5 workers and the draw
  is below 0.45; the worker removed is one of the roster, and no other worker leaves it.
  Over any number of firing decisions in a row, a roster of at least 5 workers never
  falls below 5 (it can reach exactly 5) and never grows.
\<close>

theorem firing_keeps_five:
  "(\<exists>m'. firing_decision fid m = Inr m' \<and>
      (if profit (fobj m fid) < - 500 \<and> 5 < length (workers (fobj m fid)) \<and> shd (rng m) < 0.45
       then \<exists>w \<in> set (workers (fobj m fid)).
              workers (fobj m' fid) = remove1 w (workers (fobj m fid))
       else workers (fobj m' fid) = workers (fobj m fid))) \<and>
   (5 \<le> length (workers (fobj m fid)) \<longrightarrow>
      (\<exists>m'. firing_rounds n fid m = Inr m' \<and>
             5 \<le> length (workers (fobj m' fid)) \<and>
             length (workers (fobj m' fid)) \<le> length (workers (fobj m fid))))"
proof (intro conjI impI)
  obtain m' where "firing_decision fid m = Inr m'"
    "if profit (fobj m fid) < - 500 \<and> 5 < length (workers (fobj m fid)) \<and> shd (rng m) < 0.45
       then \<exists>w \<in> set (workers (fobj m fid)).
              workers (fobj m' fid) = remove1 w (workers (fobj m fid))
       else workers (fobj m' fid) = workers (fobj m fid)"
    using firing_decision_cases [of fid m] by (elim exE conjE)
  then show "\<exists>m'. firing_decision fid m = Inr m' \<and>
      (if profit (fobj m fid) < - 500 \<and> 5 < length (workers (fobj m fid)) \<and> shd (rng m) < 0.45
       then \<exists>w \<in> set (workers (fobj m fid)).
              workers (fobj m' fid) = remove1 w (workers (fobj m fid))
       else workers (fobj m' fid) = workers (fobj m fid))"
    by (intro exI conjI)
next
  assume "5 \<le> length (workers (fobj m fid))"
  then show "\<exists>m'. firing_rounds n fid m = Inr m' \<and>
             5 \<le> length (workers (fobj m' fid)) \<and>
             length (workers (fobj m' fid)) \<le> length (workers (fobj m fid))"
    by (rule firing_rounds_length)
qed

theorem firing_keeps_five_witness:
  "profit (fobj scenario_d 0) = - 600 \<and> length (workers (fobj scenario_d 0)) = 6 \<and>
   (\<exists>m'. firing_rounds 3 0 scenario_d = Inr m' \<and>
          5 \<le> length (workers (fobj m' 0)) \<and> length (workers (fobj m' 0)) \<le> 6)"
proof -
  have l: "length (workers (fobj scenario_d 0)) = 6"
    by (simp add: scenario_d_fields)
  then have "5 \<le> length (workers (fobj scenario_d 0))" by simp
  with firing_keeps_five [of 0 scenario_d 3]
  have "\<exists>m'. firing_rounds 3 0 scenario_d = Inr m' \<and>
             5 \<le> length (workers (fobj m' 0)) \<and>
             length (workers (fobj m' 0)) \<le> length (workers (fobj scenario_d 0))"
    by (elim conjE impE)
  then have "\<exists>m'. firing_rounds 3 0 scenario_d = Inr m' \<and>
          5 \<le> length (workers (fobj m' 0)) \<and> length (workers (fobj m' 0)) \<le> 6"
    by (simp only: l)
  moreover have "profit (fobj scenario_d 0) = - 600" by (rule scenario_d_fields)
  ultimately show ?thesis using l by (intro conjI)
qed

text \<open>
  C8, as stated, fails: in scenario D, with a draw below 0.45, one firing decision takes
  the roster from 6 workers to 5, which is at 5 and not above it.
\<close>

theorem firing_reaches_five:
  "profit (fobj scenario_d 0) = - 600 \<and> length (workers (fobj scenario_d 0)) = 6 \<and>
   \<not> (case firing_decision 0 scenario_d of
         Inl e \<Rightarrow> True
       | Inr m' \<Rightarrow> 5 < length (workers (fobj m' 0)))"
proof -
  have l: "length (workers (fobj scenario_d 0)) = 6"
    by (simp add: scenario_d_fields)
  have g: "profit (fobj scenario_d 0) < - 500 \<and> 5 < length (workers (fobj scenario_d 0))
           \<and> shd (rng scenario_d) < 0.45"
    by (simp add: scenario_d_fields)
  obtain m' where d: "firing_decision 0 scenario_d = Inr m'" and
    c: "if profit (fobj scenario_d 0) < - 500 \<and> 5 < length (workers (fobj scenario_d 0))
           \<and> shd (rng scenario_d) < 0.45
        then \<exists>w \<in> set (workers (fobj scenario_d 0)).
               workers (fobj m' 0) = remove1 w (workers (fobj scenario_d 0))
        else workers (fobj m' 0) = workers (fobj scenario_d 0)"
    using firing_decision_cases [of 0 scenario_d] by (elim exE conjE)
  from c g have "\<exists>w \<in> set (workers (fobj scenario_d 0)).
               workers (fobj m' 0) = remove1 w (workers (fobj scenario_d 0))"
    by (simp only: if_True)
  then obtain w where w: "w \<in> set (workers (fobj scenario_d 0))"
    "workers (fobj m' 0) = remove1 w (workers (fobj scenario_d 0))"
    by (elim bexE)
  have "length (workers (fobj m' 0)) = length (workers (fobj scenario_d 0)) - 1"
    using w(1) by (simp only: w(2) length_remove1 if_True)
  then have "length (workers (fobj m' 0)) = 5"
    by (simp only: l)
  with d have "\<not> (case firing_decision 0 scenario_d of
         Inl e \<Rightarrow> True
       | Inr m' \<Rightarrow> 5 < length (workers (fobj m' 0)))"
    by simp
  moreover have "profit (fobj scenario_d 0) = - 600" by (rule scenario_d_fields)
  ultimately show ?thesis using l by (intro conjI)
qed

section \<open>The firm: hiring\<close>

lemma hire_worker_fobj:
  "fobj (snd (hire_worker fid wid r m)) =
     (fobj m)(fid := (fobj m fid)\<lparr>workers := workers (fobj m fid) @ [wid]\<rparr>)"
  by (simp add: hire_worker_def Let_def work_for_firm_frame)

lemma hire_worker_divisors:
  "divisors_ok (wobj (snd (hire_worker fid wid r m)) i) = divisors_ok (wobj m i)"
  by (simp add: hire_worker_def Let_def work_for_firm_divisors)

lemma calculate_worker_wage_offer_ge:
  assumes "calculate_worker_wage_offer fid wid m = Inr (offer, m1)"
    "get_reservation_wage (wobj m wid) = Inr r"
  shows "r \<le> offer"
  using assms
  by (auto simp: calculate_worker_wage_offer_def Let_def uniform_def split: if_splits)

lemma should_hire_worker_hires:
  assumes "wid \<notin> set (workers (fobj m fid))"
    "int (length (workers (fobj m fid))) < max_workers (fobj m fid)"
    "shd (rng m) < 0.09" "debt_capacity (wobj m wid) \<noteq> 0"
  shows "\<exists>offer. should_hire_worker fid wid m
           = Inr (True, snd (hire_worker fid wid offer (m\<lparr>rng := stl (stl (rng m))\<rparr>)))"
proof -
  define m1 where "m1 = m\<lparr>rng := stl (rng m)\<rparr>"
  have "debt_capacity (wobj m1 wid) \<noteq> 0" using assms(4) by (simp add: m1_def)
  from calculate_worker_wage_offer_returns [OF this, of fid]
  obtain offer where
    o: "calculate_worker_wage_offer fid wid m1 = Inr (offer, m1\<lparr>rng := stl (rng m1)\<rparr>)"
    by blast
  have m2: "m1\<lparr>rng := stl (rng m1)\<rparr> = m\<lparr>rng := stl (stl (rng m))\<rparr>"
    by (simp add: m1_def)
  have "should_hire_worker fid wid m
           = Inr (True, snd (hire_worker fid wid offer (m\<lparr>rng := stl (stl (rng m))\<rparr>)))"
    using assms(1,2,3) o [unfolded m2]
    by (simp add: should_hire_worker_def Let_def random_def m1_def [symmetric])
  then show ?thesis ..
qed


lemma choice_singleton: "choice [x] g = Inr (x, stl g)"
  by (simp add: choice_def)

lemma hiring_loop_hires_twice:
  assumes "wid \<notin> set (workers (fobj m fid))"
    "int (length (workers (fobj m fid))) < max_workers (fobj m fid)"
    "shd (stl (rng m)) < 0.09" "divisors_ok (wobj m wid)"
  shows "\<exists>m'. hiring_loop fid (Suc 0) [wid] m = Inr m' \<and>
              workers (fobj m' fid) = workers (fobj m fid) @ [wid, wid] \<and>
              max_workers (fobj m' fid) = max_workers (fobj m fid)"
proof -
  define m0 where "m0 = m\<lparr>rng := stl (rng m)\<rparr>"
  have a0: "wid \<notin> set (workers (fobj m0 fid))"
    "int (length (workers (fobj m0 fid))) < max_workers (fobj m0 fid)"
    "shd (rng m0) < 0.09" "debt_capacity (wobj m0 wid) \<noteq> 0"
    using assms by (simp_all add: m0_def divisors_ok_def)
  from should_hire_worker_hires [OF a0]
  obtain offer where
    s: "should_hire_worker fid wid m0
          = Inr (True, snd (hire_worker fid wid offer (m0\<lparr>rng := stl (stl (rng m0))\<rparr>)))"
    by blast
  define m1 where "m1 = snd (hire_worker fid wid offer (m0\<lparr>rng := stl (stl (rng m0))\<rparr>))"
  have d1: "divisors_ok (wobj m1 wid)"
    using assms(4) by (simp add: m1_def hire_worker_divisors m0_def)
  have f1: "fobj m1 = (fobj m)(fid := (fobj m fid)\<lparr>workers := workers (fobj m fid) @ [wid]\<rparr>)"
    by (simp add: m1_def hire_worker_fobj m0_def)
  from d1 have "debt_capacity (wobj m1 wid) \<noteq> 0" by (simp add: divisors_ok_def)
  from calculate_worker_wage_offer_returns [OF this, of fid]
  obtain offer2 where
    o2: "calculate_worker_wage_offer fid wid m1 = Inr (offer2, m1\<lparr>rng := stl (rng m1)\<rparr>)"
    by blast
  define m2 where "m2 = m1\<lparr>rng := stl (rng m1)\<rparr>"
  obtain r where r: "get_reservation_wage (wobj m1 wid) = Inr r"
    using get_reservation_wage_returns [of "wobj m1 wid"] d1 by (auto simp: divisors_ok_def)
  have ge: "r \<le> offer2" by (rule calculate_worker_wage_offer_ge [OF o2 r])
  have r2: "get_reservation_wage (wobj m2 wid) = Inr r" using r by (simp add: m2_def)
  have h2: "py_div offer2 (work_hours (wobj m2 wid)) = Inr (offer2 / work_hours (wobj m1 wid))"
    using d1 by (simp add: py_div_def m2_def divisors_ok_def)
  define m3 where "m3 = snd (hire_worker fid wid (offer2 / work_hours (wobj m1 wid)) m2)"
  have f3: "fobj m3 = (fobj m)(fid := (fobj m fid)\<lparr>workers := workers (fobj m fid) @ [wid, wid]\<rparr>)"
    by (simp add: m3_def hire_worker_fobj m2_def f1)
  have "hiring_loop fid (Suc 0) [wid] m = Inr m3"
    using assms(2) s o2 r2 ge h2
    by (simp add: choice_singleton m0_def [symmetric] m1_def [symmetric] m2_def [symmetric]
        m3_def [symmetric])
  then show ?thesis by (simp add: f3)
qed


lemma should_hire_worker_bound:
  assumes "should_hire_worker fid wid m = Inr (b, m')"
    "int (length (workers (fobj m fid))) \<le> max_workers (fobj m fid)"
  shows "int (length (workers (fobj m' fid))) \<le> max_workers (fobj m' fid)"
proof (cases "wid \<notin> set (workers (fobj m fid)) \<and>
              int (length (workers (fobj m fid))) < max_workers (fobj m fid)")
  case False
  with assms(1) have "m' = m"
    by (auto simp: should_hire_worker_def Let_def split: if_splits)
  with assms(2) show ?thesis by simp
next
  case True
  from assms(1) True have
    "fobj m' = fobj m \<or>
     fobj m' = (fobj m)(fid := (fobj m fid)\<lparr>workers := workers (fobj m fid) @ [wid]\<rparr>)"
    by (auto simp: should_hire_worker_def Let_def random_def hire_worker_fobj
        split: if_splits sum.splits dest!: calculate_worker_wage_offer_state)
  then show ?thesis
    using True by auto
qed

lemma scenario_full_fields:
  "workers (fobj scenario_full 0) = [1..<31]" "max_workers (fobj scenario_full 0) = 31"
  "unemployed_workers scenario_full = [0]" "rng scenario_full = sconst 0"
  "wobj scenario_full 0 = worker0"
  by (simp_all add: scenario_full_def economy0_def firm0_def)

lemma worker0_divisors: "divisors_ok worker0"
  by (simp add: worker0_def divisors_ok_def)

text \<open>
  C3. \<open>should_hire_worker\<close> keeps the roster within the capacity (lemma
  \<open>should_hire_worker_bound\<close>), but it has already hired the worker when it returns
  true, and the hiring loop of \<open>_make_employment_decisions\<close> then calls
  \<open>hire_worker\<close> for the same worker again, with no check of the capacity: every hire
  of the loop appends the worker twice (lemma \<open>hiring_loop_hires_twice\<close>). With 30
  entries and a capacity of 31, one hiring decision leaves a roster of 32 entries.
\<close>

theorem roster_exceeds_capacity:
  "length (workers (fobj scenario_full 0)) = 30 \<and> max_workers (fobj scenario_full 0) = 31 \<and>
   (case hiring_decision 0 scenario_full of
      Inl e \<Rightarrow> False
    | Inr m' \<Rightarrow> length (workers (fobj m' 0)) = 32 \<and> max_workers (fobj m' 0) = 31)"
proof -
  have l: "length (workers (fobj scenario_full 0)) = 30"
    by (simp add: scenario_full_fields)
  have a: "0 \<notin> set (workers (fobj scenario_full 0))"
    "int (length (workers (fobj scenario_full 0))) < max_workers (fobj scenario_full 0)"
    "shd (stl (rng scenario_full)) < 0.09" "divisors_ok (wobj scenario_full 0)"
    by (simp_all add: scenario_full_fields worker0_divisors)
  from hiring_loop_hires_twice [OF a]
  obtain m' where h: "hiring_loop 0 (Suc 0) [0] scenario_full = Inr m'"
    "workers (fobj m' 0) = workers (fobj scenario_full 0) @ [0, 0]"
    "max_workers (fobj m' 0) = max_workers (fobj scenario_full 0)"
    by blast
  have "hiring_decision 0 scenario_full = hiring_loop 0 (Suc 0) [0] scenario_full"
    using a(2) by (simp add: hiring_decision_def Let_def scenario_full_fields(3))
  with h have "hiring_decision 0 scenario_full = Inr m'" by simp
  moreover have "length (workers (fobj m' 0)) = 32" using h(2) l by simp
  moreover have "max_workers (fobj m' 0) = 31" using h(3) by (simp add: scenario_full_fields)
  ultimately show ?thesis using l by (simp add: scenario_full_fields(2))
qed


section \<open>Construction: the population sizes\<close>

lemma rng_ok_sconst: "rng_ok (sconst 0)"
  by (simp add: rng_ok_def)

lemma worker_init_rng: "snd (worker_init h g) = stl (stl (stl (stl (stl (stl g)))))"
  by (simp add: worker_init_def determine_skill_level_def get_initial_wealth_def
      draw_productivity_def determine_firm_ownership_def random_def uniform_def
      case_prod_beta Let_def)

lemma create_workers_lists:
  "worker_agents (create_workers ids m) = worker_agents m @ ids \<and>
   firm_agents (create_workers ids m) = firm_agents m \<and>
   (rng_ok (rng m) \<longrightarrow> rng_ok (rng (create_workers ids m)))"
proof (induction ids arbitrary: m)
  case Nil
  show ?case by simp
next
  case (Cons i ids)
  define m1 where
    "m1 = m\<lparr>wobj := (wobj m)(i := fst (worker_init 40 (rng m))),
            worker_agents := worker_agents m @ [i],
            unemployed_workers := unemployed_workers m @ [i],
            rng := snd (worker_init 40 (rng m))\<rparr>"
  have s: "create_workers (i # ids) m = create_workers ids m1"
    by (simp add: m1_def case_prod_beta)
  have "rng_ok (rng m) \<longrightarrow> rng_ok (rng m1)"
    by (simp add: m1_def worker_init_rng rng_ok_stl)
  with Cons.IH [of m1] show ?case
    unfolding s by (simp add: m1_def)
qed

lemma determine_skill_preferences_returns:
  assumes "rng_ok g"
  shows "\<exists>p. determine_skill_preferences g = Inr (p, stl (stl (stl g)))"
proof -
  have "0 \<le> shd g" "0 \<le> shd (stl g)" "0 \<le> shd (stl (stl g))"
    using assms by (simp_all add: rng_ok_shd rng_ok_stl)
  then have "0.1 + (0.3 - 0.1) * shd g + (0.2 + (0.4 - 0.2) * shd (stl g))
               + (0.4 + (0.7 - 0.4) * shd (stl (stl g))) \<noteq> 0"
    by simp
  then show ?thesis
    by (simp add: determine_skill_preferences_def uniform_def Let_def)
qed

lemma determine_skill_preferences_error:
  "determine_skill_preferences g = Inl e \<Longrightarrow> e = ZeroDivisionError"
  by (simp add: determine_skill_preferences_def uniform_def Let_def split: if_splits)

lemma firm_init_returns:
  assumes "rng_ok g"
  shows "\<exists>f g'. firm_init g = Inr (f, g') \<and> rng_ok g'"
proof -
  have "rng_ok (stl (stl g))" using assms by (simp add: rng_ok_stl)
  from determine_skill_preferences_returns [OF this]
  obtain p where p: "determine_skill_preferences (stl (stl g))
      = Inr (p, stl (stl (stl (stl (stl g)))))"
    by blast
  show ?thesis
    using assms
    by (simp add: firm_init_def uniform_def randint_def p rng_ok_stl)
qed

lemma firm_init_error: "firm_init g = Inl e \<Longrightarrow> e = ZeroDivisionError"
  by (auto simp: firm_init_def uniform_def randint_def split: sum.splits
      dest: determine_skill_preferences_error)

lemma create_firms_returns:
  assumes "rng_ok (rng m)"
  shows "\<exists>m'. create_firms ids m = Inr m' \<and> firm_agents m' = firm_agents m @ ids \<and>
              worker_agents m' = worker_agents m"
  using assms
proof (induction ids arbitrary: m)
  case Nil
  show ?case by simp
next
  case (Cons i ids)
  obtain f g' where f: "firm_init (rng m) = Inr (f, g')" "rng_ok g'"
    using firm_init_returns [OF Cons.prems] by blast
  define m1 where
    "m1 = m\<lparr>fobj := (fobj m)(i := f), firm_agents := firm_agents m @ [i], rng := g'\<rparr>"
  have "rng_ok (rng m1)" using f(2) by (simp add: m1_def)
  from Cons.IH [OF this] obtain m' where
    "create_firms ids m1 = Inr m'" "firm_agents m' = firm_agents m1 @ ids"
    "worker_agents m' = worker_agents m1"
    by blast
  then show ?case
    using f(1) by (simp add: m1_def)
qed

lemma create_firms_error: "create_firms ids m = Inl e \<Longrightarrow> e = ZeroDivisionError"
proof (induction ids arbitrary: m)
  case Nil
  then show ?case by simp
next
  case (Cons i ids)
  then show ?case
    by (auto split: sum.splits dest: firm_init_error)
qed

lemma collect_stress_lists:
  "worker_agents (collect_stress ids m) = worker_agents m \<and>
   firm_agents (collect_stress ids m) = firm_agents m"
  by (induction ids arbitrary: m) (auto split: sum.splits)

lemma collect_lists:
  "worker_agents (collect m) = worker_agents m" "firm_agents (collect m) = firm_agents m"
  by (simp_all add: collect_def collect_stress_lists)

lemma model_init_no_workers:
  "model_init w0 f0 0 n_firms n_owners g = Inl ZeroDivisionError"
  by (auto simp: model_init_def Let_def py_div_def split: sum.splits
      dest: create_firms_error)

lemma model_init_returns:
  assumes "n_workers \<noteq> 0" "rng_ok g"
  shows "\<exists>m. model_init w0 f0 n_workers n_firms n_owners g = Inr m \<and>
             worker_agents m = [0..<nat n_workers] \<and> firm_agents m = [0..<nat n_firms]"
proof -
  define m0 where
    "m0 = \<lparr>num_workers = n_workers, num_firms = n_firms, num_owners = n_owners,
            price_index = 1.0, inflation_rate = 0.02,
            employed_workers = [], unemployed_workers = [],
            worker_agents = [], firm_agents = [],
            wobj = (\<lambda>_. w0), fobj = (\<lambda>_. f0), rng = g\<rparr>"
  define m1 where "m1 = create_workers [0..<nat n_workers] m0"
  have m1: "worker_agents m1 = [0..<nat n_workers]" "firm_agents m1 = []" "rng_ok (rng m1)"
    using create_workers_lists [of "[0..<nat n_workers]" m0] assms(2)
    by (simp_all add: m1_def m0_def)
  from create_firms_returns [OF m1(3), of "[0..<nat n_firms]"]
  obtain m2 where m2: "create_firms [0..<nat n_firms] m1 = Inr m2"
    "firm_agents m2 = [0..<nat n_firms]" "worker_agents m2 = [0..<nat n_workers]"
    using m1 by auto
  have "model_init w0 f0 n_workers n_firms n_owners g =
      (case create_firms [0..<nat n_firms] m1 of
         Inl e \<Rightarrow> Inl e
       | Inr m2 \<Rightarrow>
           (case py_div (real (length (filter owns_firm (get_workers (collect m2)))))
                   (real_of_int n_workers) of
              Inl e \<Rightarrow> Inl e
            | Inr share \<Rightarrow> Inr (collect m2)))"
    unfolding model_init_def Let_def m1_def m0_def by (rule refl)
  then have "model_init w0 f0 n_workers n_firms n_owners g = Inr (collect m2)"
    using assms(1) m2(1) by (simp add: py_div_def)
  then show ?thesis
    using m2 by (simp add: collect_lists)
qed

text \<open>
  C9, as amended. The constructor checks no size. With \<open>num_workers = 0\<close> it fails, with
  the ZeroDivisionError of the log line that divides by \<open>num_workers\<close>. With any other
  \<open>num_workers\<close> and any \<open>num_firms\<close>, negative or zero included, it succeeds, given
  draws in the unit interval: \<open>range(n)\<close> creates \<open>n\<close> agents, none for \<open>n \<le> 0\<close>. So
  for every valid size the constructor succeeds.
\<close>

theorem model_init_sizes:
  "(n_workers = 0 \<longrightarrow>
      model_init w0 f0 n_workers n_firms n_owners g = Inl ZeroDivisionError) \<and>
   (n_workers \<noteq> 0 \<and> rng_ok g \<longrightarrow>
      (\<exists>m. model_init w0 f0 n_workers n_firms n_owners g = Inr m \<and>
           worker_agents m = [0..<nat n_workers] \<and> firm_agents m = [0..<nat n_firms]))"
  using model_init_no_workers model_init_returns by blast

theorem model_init_sizes_witness:
  "model_init worker0 firm0 0 1 0 (sconst 0) = Inl ZeroDivisionError \<and>
   rng_ok (sconst 0) \<and>
   (\<exists>m. model_init worker0 firm0 2 1 0 (sconst 0) = Inr m \<and>
        worker_agents m = [0, 1] \<and> firm_agents m = [0])"
proof -
  have a: "model_init worker0 firm0 0 1 0 (sconst 0) = Inl ZeroDivisionError"
    by (rule model_init_sizes [of 0 worker0 firm0 1 0 "sconst 0", THEN conjunct1, THEN mp])
      (rule refl)
  have h: "(2::int) \<noteq> 0 \<and> rng_ok (sconst 0)" by (simp add: rng_ok_sconst)
  have e: "[0..<nat 2] = [0, 1]" "[0..<nat 1] = [0]"
    by (simp_all add: upt_rec)
  have "\<exists>m. model_init worker0 firm0 2 1 0 (sconst 0) = Inr m \<and>
        worker_agents m = [0..<nat 2] \<and> firm_agents m = [0..<nat 1]"
    by (rule model_init_sizes [of 2 worker0 firm0 1 0 "sconst 0", THEN conjunct2, THEN mp])
      (rule h)
  then have "\<exists>m. model_init worker0 firm0 2 1 0 (sconst 0) = Inr m \<and>
        worker_agents m = [0, 1] \<and> firm_agents m = [0]"
    by (simp only: e)
  with a rng_ok_sconst show ?thesis by (intro conjI)
qed

text \<open>
  C9, as stated, fails: \<open>num_workers = -1\<close> and \<open>num_firms = 0\<close> are accepted, and the
  economy built has no worker and no firm.
\<close>

theorem model_init_accepts_invalid_sizes:
  "(case model_init worker0 firm0 (- 1) 0 0 (sconst 0) of
      Inl e \<Rightarrow> False
    | Inr m \<Rightarrow> worker_agents m = [] \<and> firm_agents m = [])"
proof -
  have "(- 1::int) \<noteq> 0" by simp
  from model_init_returns [OF this rng_ok_sconst, of worker0 firm0 0 0]
  obtain m where "model_init worker0 firm0 (- 1) 0 0 (sconst 0) = Inr m"
    "worker_agents m = [0..<nat (- 1)]" "firm_agents m = [0..<nat 0]"
    by blast
  then show ?thesis by simp
qed

section \<open>Roster entries of workers who were fired\<close>

lemmas eval_defs = firm_step_def make_employment_decisions_def firing_decision_def
      hiring_decision_def should_hire_worker_def hire_worker_def fire_worker_def lose_job_def
      work_for_firm_def
      calculate_worker_wage_offer_def get_current_skill_mix_def get_reservation_wage_def
      get_productive_value_def get_productivity_def get_tax_rate_def
      choice_def random_def uniform_def py_div_def
      scenario_two_firms_def economy0_def worker_fired_def worker_low_def worker0_def firm0_def
      Let_def

text \<open>
  C7. \<open>work_for_firm\<close> does return at once for an employed worker (lemma
  \<open>work_for_firm_employed_noop\<close>), but a worker is still accepted by two employers in
  one step. Every hire leaves two roster entries and a firing removes one, so a fired
  worker stays on the roster of the old firm. In the state \<open>scenario_two_firms\<close>, in
  the same week, firm 0 hires and pays worker 0, then firm 1 fires this worker, now
  employed by firm 0, and hires and pays the worker again: the worker's total wages grow
  twice, the employer goes from firm 0 to firm 1, and worker 0 ends on the rosters of both
  firms.
\<close>

theorem two_employers_in_one_step:
  "\<not> is_employed (wobj scenario_two_firms 0) \<and>
   (case firm_step 0 scenario_two_firms of
      Inl e \<Rightarrow> False
    | Inr m1 \<Rightarrow>
        employer (wobj m1 0) = Some 0 \<and>
        total_wages_earned (wobj scenario_two_firms 0) < total_wages_earned (wobj m1 0) \<and>
        (case firm_step 1 m1 of
           Inl e \<Rightarrow> False
         | Inr m2 \<Rightarrow>
             employer (wobj m2 0) = Some 1 \<and>
             total_wages_earned (wobj m1 0) < total_wages_earned (wobj m2 0) \<and>
             workers (fobj m2 0) = [0, 0] \<and> workers (fobj m2 1) = [1, 1, 2, 2, 3, 3, 0, 0]))"
  by (simp add: eval_defs)

text \<open>
  C10. The production loop leaves the workers who are employed as they are (lemma
  \<open>production_loop_retained_workers\<close>), but it does credit wages outside the step of a
  hire: worker 0 of \<open>scenario_two_firms\<close>, fired in an earlier week and still on the
  roster of firm 1, is employed again by the production loop of firm 1 at a fresh offer
  and paid, with no hire: the worker's wealth and total wages grow. \<open>wages_paid\<close> adds
  the fresh hourly wage, which is below 900, to the stored wage of 900 of each of the six
  other entries.
\<close>

theorem production_loop_pays_fired_worker:
  "\<not> is_employed (wobj scenario_two_firms 0) \<and>
   workers (fobj scenario_two_firms 1) = [0, 1, 1, 2, 2, 3, 3] \<and>
   (case production_loop 1 (workers (fobj scenario_two_firms 1)) 0 scenario_two_firms of
      Inl e \<Rightarrow> False
    | Inr (t, m') \<Rightarrow>
        is_employed (wobj m' 0) \<and> employer (wobj m' 0) = Some 1 \<and>
        wealth (wobj scenario_two_firms 0) < wealth (wobj m' 0) \<and>
        total_wages_earned (wobj scenario_two_firms 0) < total_wages_earned (wobj m' 0) \<and>
        0 < wage (wobj m' 0) \<and> wage (wobj m' 0) < 900 \<and>
        6 * 900 < wages_paid (fobj m' 1) \<and> wages_paid (fobj m' 1) < 7 * 900)"
  by (simp add: eval_defs)

section \<open>Rounding in the Gini coefficient\<close>


lemma fl_zero: "fl 0 = 0"
  by (simp add: fl_def)







lemma compute_gini_double_all_broke:
  "compute_gini_double scenario_all_broke = Inl ZeroDivisionError"
  by (simp add: compute_gini_double_def scenario_all_broke_def economy0_def worker_broke_def
      worker0_def Let_def upt_rec fl_zero)




section \<open>Non-negative wealth and debt\<close>

lemma uniform_bounds:
  assumes "rng_ok g" "a \<le> b"
  shows "a \<le> fst (uniform a b g)" "fst (uniform a b g) \<le> b" "rng_ok (snd (uniform a b g))"
proof -
  have u: "0 \<le> shd g" "shd g < 1" using assms(1) by (simp_all add: rng_ok_shd)
  have "0 \<le> (b - a) * shd g" using u assms(2) by simp
  then show "a \<le> fst (uniform a b g)" by (simp add: uniform_def)
  have "(b - a) * shd g \<le> (b - a) * 1"
    using u assms(2) by (intro mult_left_mono) simp_all
  then show "fst (uniform a b g) \<le> b" by (simp add: uniform_def)
  show "rng_ok (snd (uniform a b g))" using assms(1) by (simp add: uniform_def rng_ok_stl)
qed

lemma get_tax_rate_bounds:
  assumes "rng_ok g"
  shows "0 \<le> fst (get_tax_rate w g)" "fst (get_tax_rate w g) \<le> 1"
    "snd (get_tax_rate w g) = stl g"
proof -
  have "0.05 \<le> fst (get_tax_rate w g) \<and> fst (get_tax_rate w g) \<le> 0.30"
    using uniform_bounds(1,2) [OF assms, of "0.20" "0.30"]
      uniform_bounds(1,2) [OF assms, of "0.12" "0.20"]
      uniform_bounds(1,2) [OF assms, of "0.05" "0.12"]
    by (auto simp: get_tax_rate_def)
  then show "0 \<le> fst (get_tax_rate w g)" "fst (get_tax_rate w g) \<le> 1" by simp_all
  show "snd (get_tax_rate w g) = stl g" by (simp add: get_tax_rate_def uniform_def)
qed

lemma work_for_firm_worker_inv:
  assumes "worker_inv (wobj m wid)" "rng_ok (rng m)" "0 \<le> r"
  shows "worker_inv (wobj (snd (work_for_firm wid fid r m)) wid)"
proof (cases "is_employed (wobj m wid)")
  case True
  with assms(1) show ?thesis by (simp add: work_for_firm_def)
next
  case False
  define w where "w = wobj m wid"
  define rate where "rate = fst (get_tax_rate (w\<lparr>is_employed := True, employer := Some fid,
      wage := r, weeks_unemployed := 0\<rparr>) (rng m))"
  have rb: "0 \<le> rate" "rate \<le> 1"
    unfolding rate_def using get_tax_rate_bounds [OF assms(2)] by simp_all
  have h: "0 \<le> work_hours w" "0 \<le> wealth w" using assms(1) by (simp_all add: w_def worker_inv_def)
  have "0 \<le> (r * work_hours w) * (1 - rate)"
    using rb h assms(3) by (intro mult_nonneg_nonneg) simp_all
  then have net: "0 \<le> r * work_hours w - r * work_hours w * rate"
    by (simp add: algebra_simps)
  have sh: "0 \<le> fst (uniform 0.01 0.05 (stl (rng m)))"
    using uniform_bounds(1) [of "stl (rng m)" "0.01" "0.05"] assms(2)
    by (simp add: rng_ok_stl)
  have div: "0 < profit (fobj m fid) \<longrightarrow>
      0 \<le> profit (fobj m fid) * fst (uniform 0.01 0.05 (stl (rng m)))"
    using sh by simp
  show ?thesis
    using False assms(1) net h div
    by (simp add: work_for_firm_def Let_def case_prod_beta get_tax_rate_bounds(3) [OF assms(2)]
        worker_inv_def w_def [symmetric] rate_def [symmetric])
qed


lemma work_for_firm_rng:
  assumes "rng_ok (rng m)"
  shows "rng_ok (rng (snd (work_for_firm wid fid r m)))"
  using assms
  by (simp add: work_for_firm_def Let_def case_prod_beta get_tax_rate_bounds(3) uniform_def
      rng_ok_stl)


lemma work_for_firm_inv:
  assumes "nonneg_on W F m" "wid \<in> W \<longrightarrow> 0 \<le> r"
  shows "nonneg_on W F (snd (work_for_firm wid fid r m))"
proof -
  have g: "rng_ok (rng m)" using assms(1) by (simp add: nonneg_on_def)
  have w: "worker_inv (wobj (snd (work_for_firm wid fid r m)) i)" if "i \<in> W" for i
  proof (cases "i = wid")
    case True
    with that assms have "worker_inv (wobj m wid)" "0 \<le> r" by (simp_all add: nonneg_on_def)
    from work_for_firm_worker_inv [OF this(1) g this(2)] True show ?thesis by simp
  next
    case False
    then show ?thesis using assms(1) that by (simp add: work_for_firm_other nonneg_on_def)
  qed
  show ?thesis
    using assms(1) w work_for_firm_rng [OF g]
    by (simp add: nonneg_on_def work_for_firm_frame)
qed

lemma nonneg_on_rng: "nonneg_on W F m \<Longrightarrow> rng_ok g \<Longrightarrow> nonneg_on W F (m\<lparr>rng := g\<rparr>)"
  by (simp add: nonneg_on_def)

lemma nonneg_on_fobj:
  assumes "nonneg_on W F m" "\<forall>j. wage_rates (G j) = wage_rates (fobj m j)"
  shows "nonneg_on W F (m\<lparr>fobj := G\<rparr>)"
  using assms by (simp add: nonneg_on_def)

lemma calculate_worker_wage_offer_nonneg:
  assumes "calculate_worker_wage_offer fid wid m = Inr (offer, m1)" "nonneg_on W F m"
    "fid \<in> F"
  shows "wid \<in> W \<longrightarrow> 0 \<le> offer" "nonneg_on W F m1"
proof -
  have g: "rng_ok (rng m)" using assms(2) by (simp add: nonneg_on_def)
  have m1: "m1 = m\<lparr>rng := stl (rng m)\<rparr>"
    by (rule calculate_worker_wage_offer_state [OF assms(1)])
  show "nonneg_on W F m1" unfolding m1 using assms(2) g by (simp add: nonneg_on_rng rng_ok_stl)
  show "wid \<in> W \<longrightarrow> 0 \<le> offer"
  proof
    assume wid: "wid \<in> W"
    have r: "0 \<le> wage_rates (fobj m fid) (skill_level (wobj m wid))"
      using assms(2,3) by (simp add: nonneg_on_def)
    have h: "0 \<le> work_hours (wobj m wid)"
      using assms(2) wid by (simp add: nonneg_on_def worker_inv_def)
    have u: "0 \<le> shd (rng m)" using g by (simp add: rng_ok_shd)
    have a: "0 \<le> wage_rates (fobj m fid) (skill_level (wobj m wid))
                * (11 / 10 + (13 / 10 - 11 / 10) * shd (rng m)) * work_hours (wobj m wid)"
      using r h u by (intro mult_nonneg_nonneg) simp_all
    have b: "0 \<le> wage_rates (fobj m fid) (skill_level (wobj m wid))
                * (8 / 10 + (1 - 8 / 10) * shd (rng m)) * work_hours (wobj m wid)"
      using r h u by (intro mult_nonneg_nonneg) simp_all
    from assms(1) a b show "0 \<le> offer"
      by (auto simp: calculate_worker_wage_offer_def Let_def uniform_def
          split: if_splits sum.splits)
  qed
qed

lemma py_div_nonneg:
  assumes "py_div a b = Inr q" "0 \<le> a" "0 \<le> b"
  shows "0 \<le> q"
  using assms by (auto simp: py_div_def split: if_splits)

lemma hire_worker_inv:
  assumes "nonneg_on W F m" "wid \<in> W \<longrightarrow> 0 \<le> r"
  shows "nonneg_on W F (snd (hire_worker fid wid r m))"
proof -
  define m1 where
    "m1 = m\<lparr>fobj := (fobj m)(fid := (fobj m fid)\<lparr>workers := workers (fobj m fid) @ [wid]\<rparr>)\<rparr>"
  have "nonneg_on W F m1" unfolding m1_def using assms(1) by (rule nonneg_on_fobj) simp
  then have "nonneg_on W F (snd (work_for_firm wid fid r m1))"
    using assms(2) by (rule work_for_firm_inv)
  then show ?thesis
    by (simp add: hire_worker_def Let_def m1_def [symmetric] nonneg_on_def)
qed

lemma fire_worker_inv:
  assumes "nonneg_on W F m"
  shows "nonneg_on W F (snd (fire_worker fid wid m))"
  using assms
  by (simp add: fire_worker_def Let_def nonneg_on_def lose_job_def worker_inv_def)

lemma should_hire_worker_inv:
  assumes "should_hire_worker fid wid m = Inr (b, m')" "nonneg_on W F m" "fid \<in> F"
  shows "nonneg_on W F m'"
proof -
  have g: "rng_ok (stl (rng m))" using assms(2) by (simp add: nonneg_on_def rng_ok_stl)
  define m1 where "m1 = m\<lparr>rng := stl (rng m)\<rparr>"
  have i1: "nonneg_on W F m1" unfolding m1_def using assms(2) g by (rule nonneg_on_rng)
  from assms(1) have
    "m' = m \<or> m' = m1 \<or>
     (\<exists>offer m2. calculate_worker_wage_offer fid wid m1 = Inr (offer, m2) \<and>
        m' = snd (hire_worker fid wid offer m2))"
    by (auto simp: should_hire_worker_def Let_def random_def m1_def
        split: if_splits sum.splits)
  then show ?thesis
    using assms(2) i1
    by (auto dest: calculate_worker_wage_offer_nonneg [OF _ i1 assms(3)] intro: hire_worker_inv)
qed

lemma firing_decision_inv:
  assumes "firing_decision fid m = Inr m'" "nonneg_on W F m"
  shows "nonneg_on W F m'"
proof -
  have g: "rng_ok (stl (rng m))" "rng_ok (stl (stl (rng m)))"
    using assms(2) by (simp_all add: nonneg_on_def rng_ok_stl)
  from assms(1) have
    "m' = m \<or> m' = m\<lparr>rng := stl (rng m)\<rparr> \<or>
     (\<exists>w. m' = snd (fire_worker fid w (m\<lparr>rng := stl (stl (rng m))\<rparr>)))"
    by (auto simp: firing_decision_def Let_def random_def choice_def
        split: if_splits sum.splits)
  then show ?thesis
    using assms(2) g by (auto intro: fire_worker_inv nonneg_on_rng)
qed

lemma hiring_loop_inv:
  assumes "hiring_loop fid k unemployed m = Inr m'" "nonneg_on W F m" "fid \<in> F"
  shows "nonneg_on W F m'"
  using assms(1,2)
proof (induction k arbitrary: unemployed m)
  case 0
  then show ?case by simp
next
  case (Suc k)
  show ?case
  proof (cases "int (length (workers (fobj m fid))) \<ge> max_workers (fobj m fid)")
    case True
    with Suc.prems show ?thesis by simp
  next
    case room: False
    from Suc.prems(1) room obtain pw g1 hired m1 where
      c: "choice unemployed (rng m) = Inr (pw, g1)" and
      s: "should_hire_worker fid pw (m\<lparr>rng := g1\<rparr>) = Inr (hired, m1)"
      by (auto split: sum.splits prod.splits)
    have "g1 = stl (rng m)" using c by (auto simp: choice_def split: if_splits)
    then have "nonneg_on W F (m\<lparr>rng := g1\<rparr>)"
      using Suc.prems(2) by (simp add: nonneg_on_def rng_ok_stl)
    then have i1: "nonneg_on W F m1" using assms(3) by (rule should_hire_worker_inv [OF s])
    show ?thesis
    proof (cases hired)
      case False
      with Suc.prems(1) room c s
      have "hiring_loop fid k unemployed m1 = Inr m'" by simp
      from Suc.IH [OF this i1] show ?thesis .
    next
      case True
      from Suc.prems(1) room c s True
      obtain offer m2 res where
        o: "calculate_worker_wage_offer fid pw m1 = Inr (offer, m2)" and
        r: "get_reservation_wage (wobj m2 pw) = Inr res"
        by (auto split: sum.splits prod.splits)
      have i2: "nonneg_on W F m2" "pw \<in> W \<longrightarrow> 0 \<le> offer"
        using calculate_worker_wage_offer_nonneg [OF o i1 assms(3)] by simp_all
      show ?thesis
      proof (cases "offer \<ge> res")
        case False
        with Suc.prems(1) room c s True o r
        have "hiring_loop fid k unemployed m2 = Inr m'" by simp
        from Suc.IH [OF this i2(1)] show ?thesis .
      next
        case ge: True
        from Suc.prems(1) room c s True o r ge
        obtain hourly where
          d: "py_div offer (work_hours (wobj m2 pw)) = Inr hourly" and
          l: "hiring_loop fid k (remove1 pw unemployed)
                (snd (hire_worker fid pw hourly m2)) = Inr m'"
          by (auto split: sum.splits)
        have "pw \<in> W \<longrightarrow> 0 \<le> work_hours (wobj m2 pw)"
          using i2(1) by (simp add: nonneg_on_def worker_inv_def)
        with d i2(2) have "pw \<in> W \<longrightarrow> 0 \<le> hourly"
          by (auto intro: py_div_nonneg)
        with i2(1) have "nonneg_on W F (snd (hire_worker fid pw hourly m2))"
          by (rule hire_worker_inv)
        from Suc.IH [OF l this] show ?thesis .
      qed
    qed
  qed
qed

lemma make_employment_decisions_inv:
  assumes "make_employment_decisions fid m = Inr m'" "nonneg_on W F m" "fid \<in> F"
  shows "nonneg_on W F m'"
proof -
  from assms(1) obtain m1 where
    f: "firing_decision fid m = Inr m1" and h: "hiring_decision fid m1 = Inr m'"
    by (auto simp: make_employment_decisions_def split: sum.splits)
  have i1: "nonneg_on W F m1" by (rule firing_decision_inv [OF f assms(2)])
  from h have "m' = m1 \<or>
      hiring_loop fid (min 3 (length (unemployed_workers m1))) (unemployed_workers m1) m1 = Inr m'"
    by (auto simp: hiring_decision_def Let_def split: if_splits)
  then show ?thesis using i1 assms(3) by (auto intro: hiring_loop_inv)
qed

lemma production_loop_inv:
  assumes "production_loop fid ws t m = Inr (t', m')" "nonneg_on W F m" "fid \<in> F"
  shows "nonneg_on W F m'"
  using assms(1,2)
proof (induction ws arbitrary: t m)
  case Nil
  then show ?case by simp
next
  case (Cons wid rest)
  from Cons.prems(1) obtain offer m1 hourly where
    o: "calculate_worker_wage_offer fid wid m = Inr (offer, m1)" and
    d: "py_div offer (work_hours (wobj m1 wid)) = Inr hourly"
    by (auto simp: Let_def split: sum.splits prod.splits)
  have i1: "nonneg_on W F m1" "wid \<in> W \<longrightarrow> 0 \<le> offer"
    using calculate_worker_wage_offer_nonneg [OF o Cons.prems(2) assms(3)] by simp_all
  have "wid \<in> W \<longrightarrow> 0 \<le> work_hours (wobj m1 wid)"
    using i1(1) by (simp add: nonneg_on_def worker_inv_def)
  with d i1(2) have h: "wid \<in> W \<longrightarrow> 0 \<le> hourly"
    by (auto intro: py_div_nonneg)
  define m2 where "m2 = snd (work_for_firm wid fid hourly m1)"
  define m3 where
    "m3 = m2\<lparr>fobj := (fobj m2)
             (fid := (fobj m2 fid)\<lparr>wages_paid := wages_paid (fobj m2 fid) + wage (wobj m2 wid)\<rparr>)\<rparr>"
  have i2: "nonneg_on W F m2" unfolding m2_def using i1(1) h by (rule work_for_firm_inv)
  have i3: "nonneg_on W F m3" unfolding m3_def using i2 by (rule nonneg_on_fobj) simp
  have "production_loop fid rest (t + get_productive_value (wobj m wid)) m3 = Inr (t', m')"
    using Cons.prems(1) o d by (simp add: Let_def m2_def m3_def)
  from Cons.IH [OF this i3] show ?case .
qed

lemma firm_step_inv:
  assumes "firm_step fid m = Inr m'" "nonneg_on W F m" "fid \<in> F"
  shows "nonneg_on W F m'"
proof -
  define m0 where
    "m0 = m\<lparr>fobj := (fobj m)(fid := (fobj m fid)\<lparr>total_surplus_value := 0, wages_paid := 0\<rparr>)\<rparr>"
  have i0: "nonneg_on W F m0" unfolding m0_def using assms(2) by (rule nonneg_on_fobj) simp
  from assms(1) obtain t m1 where
    p: "production_loop fid (workers (fobj m0 fid)) 0 m0 = Inr (t, m1)"
    by (auto simp: firm_step_def Let_def m0_def split: sum.splits prod.splits)
  have i1: "nonneg_on W F m1" by (rule production_loop_inv [OF p i0 assms(3)])
  from assms(1) p obtain f5 where
    e: "make_employment_decisions fid (m1\<lparr>fobj := (fobj m1)(fid := f5)\<rparr>) = Inr m'" and
    w: "wage_rates f5 = wage_rates (fobj m1 fid)"
    by (auto simp: firm_step_def Let_def m0_def)
  have "nonneg_on W F (m1\<lparr>fobj := (fobj m1)(fid := f5)\<rparr>)"
    using i1 by (rule nonneg_on_fobj) (simp add: w)
  from make_employment_decisions_inv [OF e this assms(3)] show ?thesis .
qed

lemma step_firms_inv:
  assumes "step_firms fids m = Inr m'" "nonneg_on W F m" "set fids \<subseteq> F"
  shows "nonneg_on W F m'"
  using assms
proof (induction fids arbitrary: m)
  case Nil
  then show ?case by simp
next
  case (Cons fid rest)
  from Cons.prems(1) obtain m1 where
    f: "firm_step fid m = Inr m1" and r: "step_firms rest m1 = Inr m'"
    by (auto split: sum.splits)
  have "fid \<in> F" "set rest \<subseteq> F" using Cons.prems(3) by simp_all
  from Cons.IH [OF r firm_step_inv [OF f Cons.prems(2) this(1)] this(2)] show ?case .
qed

lemma step_workers_inv:
  assumes "step_workers wids m = Inr m'" "nonneg_on W F m"
  shows "nonneg_on W F m'"
  using assms
proof (induction wids arbitrary: m)
  case Nil
  then show ?case by simp
next
  case (Cons wid rest)
  from Cons.prems(1) obtain w' g' where
    w: "worker_step (wobj m wid) (rng m) = Inr (w', g')" and
    r: "step_workers rest (m\<lparr>wobj := (wobj m)(wid := w'), rng := g'\<rparr>) = Inr m'"
    by (auto split: sum.splits prod.splits)
  have g: "rng_ok (rng m)" using Cons.prems(2) by (simp add: nonneg_on_def)
  have g': "rng_ok g'"
  proof -
    from w have "g' = rng m \<or> g' = stl (rng m) \<or> g' = stl (stl (rng m))"
      by (auto simp: worker_step_def Let_def random_def uniform_def
          split: sum.splits if_splits)
    with g show ?thesis by (auto simp: rng_ok_stl)
  qed
  have "wid \<in> W \<longrightarrow> worker_inv w'"
    using worker_step_inv [OF w _ g] Cons.prems(2) by (simp add: nonneg_on_def)
  then have "nonneg_on W F (m\<lparr>wobj := (wobj m)(wid := w'), rng := g'\<rparr>)"
    using Cons.prems(2) g' by (simp add: nonneg_on_def)
  from Cons.IH [OF r this] show ?case .
qed

lemma collect_stress_inv: "nonneg_on W F m \<Longrightarrow> nonneg_on W F (collect_stress wids m)"
proof (induction wids arbitrary: m)
  case Nil
  then show ?case by simp
next
  case (Cons wid rest)
  show ?case
  proof (cases "calculate_financial_stress (wobj m wid)")
    case (Inl e)
    with Cons.prems show ?thesis by simp
  next
    case (Inr w')
    have "wid \<in> W \<longrightarrow> worker_inv w'"
      using calculate_financial_stress_inv [OF Inr] Cons.prems by (simp add: nonneg_on_def)
    then have "nonneg_on W F (m\<lparr>wobj := (wobj m)(wid := w')\<rparr>)"
      using Cons.prems by (simp add: nonneg_on_def)
    from Cons.IH [OF this] show ?thesis using Inr by simp
  qed
qed


lemma hire_worker_agents:
  "worker_agents (snd (hire_worker fid wid r m)) = worker_agents m \<and>
   firm_agents (snd (hire_worker fid wid r m)) = firm_agents m"
  by (simp add: hire_worker_def Let_def work_for_firm_frame)

lemma fire_worker_agents:
  "worker_agents (snd (fire_worker fid wid m)) = worker_agents m \<and>
   firm_agents (snd (fire_worker fid wid m)) = firm_agents m"
  by (simp add: fire_worker_def Let_def)

lemma should_hire_worker_agents:
  assumes "should_hire_worker fid wid m = Inr (b, m')"
  shows "worker_agents m' = worker_agents m \<and> firm_agents m' = firm_agents m"
proof -
  from assms have
    "m' = m \<or> m' = m\<lparr>rng := stl (rng m)\<rparr> \<or>
     (\<exists>offer. m' = snd (hire_worker fid wid offer (m\<lparr>rng := stl (stl (rng m))\<rparr>)))"
    by (auto simp: should_hire_worker_def Let_def random_def
        split: if_splits sum.splits dest!: calculate_worker_wage_offer_state)
  then show ?thesis by (auto simp: hire_worker_agents)
qed

lemma firing_decision_agents:
  assumes "firing_decision fid m = Inr m'"
  shows "worker_agents m' = worker_agents m \<and> firm_agents m' = firm_agents m"
proof -
  from assms have
    "m' = m \<or> m' = m\<lparr>rng := stl (rng m)\<rparr> \<or>
     (\<exists>w. m' = snd (fire_worker fid w (m\<lparr>rng := stl (stl (rng m))\<rparr>)))"
    by (auto simp: firing_decision_def Let_def random_def choice_def
        split: if_splits sum.splits)
  then show ?thesis by (auto simp: fire_worker_agents)
qed

lemma hiring_loop_agents:
  assumes "hiring_loop fid k unemployed m = Inr m'"
  shows "worker_agents m' = worker_agents m \<and> firm_agents m' = firm_agents m"
  using assms
proof (induction k arbitrary: unemployed m)
  case 0
  then show ?case by simp
next
  case (Suc k)
  show ?case
  proof (cases "int (length (workers (fobj m fid))) \<ge> max_workers (fobj m fid)")
    case True
    with Suc.prems show ?thesis by simp
  next
    case room: False
    from Suc.prems room obtain pw g1 hired m1 where
      c: "choice unemployed (rng m) = Inr (pw, g1)" and
      s: "should_hire_worker fid pw (m\<lparr>rng := g1\<rparr>) = Inr (hired, m1)"
      by (auto split: sum.splits prod.splits)
    have a1: "worker_agents m1 = worker_agents m \<and> firm_agents m1 = firm_agents m"
      using should_hire_worker_agents [OF s] by simp
    show ?thesis
    proof (cases hired)
      case False
      with Suc.prems room c s
      have "hiring_loop fid k unemployed m1 = Inr m'" by simp
      from Suc.IH [OF this] a1 show ?thesis by simp
    next
      case True
      from Suc.prems room c s True
      obtain offer m2 res where
        o: "calculate_worker_wage_offer fid pw m1 = Inr (offer, m2)" and
        r: "get_reservation_wage (wobj m2 pw) = Inr res"
        by (auto split: sum.splits prod.splits)
      have a2: "worker_agents m2 = worker_agents m \<and> firm_agents m2 = firm_agents m"
        using calculate_worker_wage_offer_state [OF o] a1 by simp
      show ?thesis
      proof (cases "offer \<ge> res")
        case False
        with Suc.prems room c s True o r
        have "hiring_loop fid k unemployed m2 = Inr m'" by simp
        from Suc.IH [OF this] a2 show ?thesis by simp
      next
        case ge: True
        from Suc.prems room c s True o r ge
        obtain hourly where
          l: "hiring_loop fid k (remove1 pw unemployed)
                (snd (hire_worker fid pw hourly m2)) = Inr m'"
          by (auto split: sum.splits)
        from Suc.IH [OF l] a2 show ?thesis by (simp add: hire_worker_agents)
      qed
    qed
  qed
qed

lemma make_employment_decisions_agents:
  assumes "make_employment_decisions fid m = Inr m'"
  shows "worker_agents m' = worker_agents m \<and> firm_agents m' = firm_agents m"
proof -
  from assms obtain m1 where
    f: "firing_decision fid m = Inr m1" and h: "hiring_decision fid m1 = Inr m'"
    by (auto simp: make_employment_decisions_def split: sum.splits)
  from h have "m' = m1 \<or>
      hiring_loop fid (min 3 (length (unemployed_workers m1))) (unemployed_workers m1) m1 = Inr m'"
    by (auto simp: hiring_decision_def Let_def split: if_splits)
  then show ?thesis
    using firing_decision_agents [OF f] by (auto dest: hiring_loop_agents)
qed

lemma production_loop_agents:
  assumes "production_loop fid ws t m = Inr (t', m')"
  shows "worker_agents m' = worker_agents m \<and> firm_agents m' = firm_agents m"
  using assms
proof (induction ws arbitrary: t m)
  case Nil
  then show ?case by simp
next
  case (Cons wid rest)
  from Cons.prems obtain offer m1 hourly where
    o: "calculate_worker_wage_offer fid wid m = Inr (offer, m1)" and
    d: "py_div offer (work_hours (wobj m1 wid)) = Inr hourly"
    by (auto simp: Let_def split: sum.splits prod.splits)
  define m2 where "m2 = snd (work_for_firm wid fid hourly m1)"
  define m3 where
    "m3 = m2\<lparr>fobj := (fobj m2)
             (fid := (fobj m2 fid)\<lparr>wages_paid := wages_paid (fobj m2 fid) + wage (wobj m2 wid)\<rparr>)\<rparr>"
  have a3: "worker_agents m3 = worker_agents m \<and> firm_agents m3 = firm_agents m"
    using calculate_worker_wage_offer_state [OF o]
    by (simp add: m3_def m2_def work_for_firm_frame)
  have "production_loop fid rest (t + get_productive_value (wobj m wid)) m3 = Inr (t', m')"
    using Cons.prems o d by (simp add: Let_def m2_def m3_def)
  from Cons.IH [OF this] a3 show ?case by simp
qed

lemma firm_step_agents:
  assumes "firm_step fid m = Inr m'"
  shows "worker_agents m' = worker_agents m \<and> firm_agents m' = firm_agents m"
proof -
  define m0 where
    "m0 = m\<lparr>fobj := (fobj m)(fid := (fobj m fid)\<lparr>total_surplus_value := 0, wages_paid := 0\<rparr>)\<rparr>"
  from assms obtain t m1 where
    p: "production_loop fid (workers (fobj m0 fid)) 0 m0 = Inr (t, m1)"
    by (auto simp: firm_step_def Let_def m0_def split: sum.splits prod.splits)
  from assms p obtain f5 where
    e: "make_employment_decisions fid (m1\<lparr>fobj := (fobj m1)(fid := f5)\<rparr>) = Inr m'"
    by (auto simp: firm_step_def Let_def m0_def)
  show ?thesis
    using production_loop_agents [OF p] make_employment_decisions_agents [OF e]
    by (simp add: m0_def)
qed

lemma step_firms_agents:
  assumes "step_firms fids m = Inr m'"
  shows "worker_agents m' = worker_agents m \<and> firm_agents m' = firm_agents m"
  using assms
proof (induction fids arbitrary: m)
  case Nil
  then show ?case by simp
next
  case (Cons fid rest)
  from Cons.prems obtain m1 where
    f: "firm_step fid m = Inr m1" and r: "step_firms rest m1 = Inr m'"
    by (auto split: sum.splits)
  from Cons.IH [OF r] firm_step_agents [OF f] show ?case by simp
qed

lemma step_workers_agents:
  assumes "step_workers wids m = Inr m'"
  shows "worker_agents m' = worker_agents m \<and> firm_agents m' = firm_agents m"
  using assms
proof (induction wids arbitrary: m)
  case Nil
  then show ?case by simp
next
  case (Cons wid rest)
  from Cons.prems obtain w' g' where
    r: "step_workers rest (m\<lparr>wobj := (wobj m)(wid := w'), rng := g'\<rparr>) = Inr m'"
    by (auto split: sum.splits prod.splits)
  from Cons.IH [OF r] show ?case by simp
qed

lemma model_step_agents:
  assumes "model_step m = Inr m'"
  shows "worker_agents m' = worker_agents m \<and> firm_agents m' = firm_agents m"
proof -
  define m1 where
    "m1 = m\<lparr>price_index := price_index m *
              (1 + ((1 + inflation_rate m) powr (1 / 52) - 1)
                 + fst (uniform (- 0.001) 0.001 (rng m))),
            rng := snd (uniform (- 0.001) 0.001 (rng m))\<rparr>"
  from assms obtain m2 m3 where
    w: "step_workers (worker_agents m1) m1 = Inr m2" and
    f: "step_firms (firm_agents m2) m2 = Inr m3" and
    c: "m' = collect m3"
    by (auto simp: model_step_def Let_def case_prod_beta m1_def split: sum.splits)
  show ?thesis
    using step_workers_agents [OF w] step_firms_agents [OF f]
    by (simp add: c collect_lists m1_def)
qed

lemma model_step_inv:
  assumes "model_step m = Inr m'" "econ_inv m"
  shows "econ_inv m'"
proof -
  define W where "W = set (worker_agents m)"
  define F where "F = set (firm_agents m)"
  define m1 where
    "m1 = m\<lparr>price_index := price_index m *
              (1 + ((1 + inflation_rate m) powr (1 / 52) - 1)
                 + fst (uniform (- 0.001) 0.001 (rng m))),
            rng := snd (uniform (- 0.001) 0.001 (rng m))\<rparr>"
  have i: "nonneg_on W F m" using assms(2) by (simp add: econ_inv_def W_def F_def)
  then have "rng_ok (snd (uniform (- 0.001) 0.001 (rng m)))"
    by (simp add: uniform_def nonneg_on_def rng_ok_stl)
  then have i1: "nonneg_on W F m1"
    using i by (simp add: m1_def nonneg_on_def)
  from assms(1) obtain m2 m3 where
    w: "step_workers (worker_agents m1) m1 = Inr m2" and
    f: "step_firms (firm_agents m2) m2 = Inr m3" and
    c: "m' = collect m3"
    by (auto simp: model_step_def Let_def case_prod_beta m1_def split: sum.splits)
  have "firm_agents m2 = firm_agents m"
    using step_workers_agents [OF w] by (simp add: m1_def)
  then have "set (firm_agents m2) \<subseteq> F" by (simp add: F_def)
  from step_firms_inv [OF f step_workers_inv [OF w i1] this]
  have "nonneg_on W F (collect m3)" unfolding collect_def by (rule collect_stress_inv)
  then show ?thesis
    using model_step_agents [OF assms(1)] by (simp add: econ_inv_def c W_def F_def)
qed

lemma run_steps_inv:
  assumes "run_steps n m = Inr m'" "econ_inv m"
  shows "econ_inv m'"
  using assms
proof (induction n arbitrary: m)
  case 0
  then show ?case by simp
next
  case (Suc n)
  from Suc.prems(1) obtain m1 where
    s: "model_step m = Inr m1" and r: "run_steps n m1 = Inr m'"
    by (auto split: sum.splits)
  from Suc.IH [OF r model_step_inv [OF s Suc.prems(2)]] show ?case .
qed

lemma econ_inv_nonneg:
  assumes "econ_inv m" "w \<in> set (get_workers m)"
  shows "0 \<le> wealth w \<and> 0 \<le> debt w"
  using assms by (auto simp: econ_inv_def nonneg_on_def get_workers_def worker_inv_def)


lemma worker_init_inv:
  assumes "rng_ok g" "0 \<le> h"
  shows "worker_inv (fst (worker_init h g))"
proof -
  have u: "0 \<le> shd (stl g)" "0 \<le> shd (stl (stl g))" "0 \<le> shd (stl (stl (stl g)))"
    using assms(1) by (simp_all add: rng_ok_shd rng_ok_stl)
  have w: "0 \<le> 5000 + (25000 - 5000) * shd (stl g)" "0 \<le> 1500 + (8000 - 1500) * shd (stl g)"
    "0 \<le> 0 + (2000 - 0) * shd (stl g)"
    using u(1) by simp_all
  have c: "0 \<le> 5000 + (15000 - 5000) * shd (stl (stl g))"
    "0 \<le> 0.10 + (0.26 - 0.10) * shd (stl (stl (stl g)))"
    using u(2,3) by simp_all
  show ?thesis
    using w c assms(2)
    by (simp add: worker_init_def determine_skill_level_def get_initial_wealth_def
        draw_productivity_def determine_firm_ownership_def random_def uniform_def
        case_prod_beta Let_def worker_inv_def)
qed

lemma create_workers_inv: "econ_inv m \<Longrightarrow> econ_inv (create_workers ids m)"
proof (induction ids arbitrary: m)
  case Nil
  then show ?case by simp
next
  case (Cons i ids)
  define m1 where
    "m1 = m\<lparr>wobj := (wobj m)(i := fst (worker_init 40 (rng m))),
            worker_agents := worker_agents m @ [i],
            unemployed_workers := unemployed_workers m @ [i],
            rng := snd (worker_init 40 (rng m))\<rparr>"
  have s: "create_workers (i # ids) m = create_workers ids m1"
    by (simp add: m1_def case_prod_beta)
  have g: "rng_ok (rng m)" using Cons.prems by (simp add: econ_inv_def nonneg_on_def)
  then have "worker_inv (fst (worker_init 40 (rng m)))" by (rule worker_init_inv) simp
  then have "econ_inv m1"
    using Cons.prems g
    by (simp add: m1_def econ_inv_def nonneg_on_def worker_init_rng rng_ok_stl)
  from Cons.IH [OF this] show ?case unfolding s .
qed

lemma firm_init_inv:
  assumes "firm_init g = Inr (f, g')" "rng_ok g"
  shows "(\<forall>s. 0 \<le> wage_rates f s) \<and> rng_ok g'"
proof -
  have "rng_ok (stl (stl g))" using assms(2) by (simp add: rng_ok_stl)
  from determine_skill_preferences_returns [OF this]
  obtain p where p: "determine_skill_preferences (stl (stl g))
      = Inr (p, stl (stl (stl (stl (stl g)))))"
    by blast
  define g3 where "g3 = stl (stl (stl (stl (stl g))))"
  have o: "rng_ok g3" using assms(2) by (simp add: g3_def rng_ok_stl)
  then have u: "0 \<le> shd g3" "0 \<le> shd (stl g3)" "0 \<le> shd (stl (stl g3))"
    by (simp_all add: rng_ok_shd rng_ok_stl)
  have r: "wage_rates f High = 25 + 20 * shd g3"
    "wage_rates f Medium = 15 + 10 * shd (stl g3)"
    "wage_rates f Low = 8 + 10 * shd (stl (stl g3))"
    and g': "g' = stl (stl (stl (stl (stl (stl (stl (stl (stl (stl g3)))))))))"
    using assms(1) by (auto simp: firm_init_def uniform_def randint_def p g3_def)
  have "0 \<le> wage_rates f s" for s
    using u by (cases s) (simp_all add: r)
  moreover have "rng_ok g'" unfolding g' using o by (simp add: rng_ok_stl)
  ultimately show ?thesis by simp
qed

lemma create_firms_inv:
  assumes "create_firms ids m = Inr m'" "econ_inv m"
  shows "econ_inv m'"
  using assms
proof (induction ids arbitrary: m)
  case Nil
  then show ?case by simp
next
  case (Cons i ids)
  from Cons.prems(1) obtain f g' where
    f: "firm_init (rng m) = Inr (f, g')" and
    r: "create_firms ids
          (m\<lparr>fobj := (fobj m)(i := f), firm_agents := firm_agents m @ [i], rng := g'\<rparr>) = Inr m'"
    by (auto split: sum.splits prod.splits)
  have "rng_ok (rng m)" using Cons.prems(2) by (simp add: econ_inv_def nonneg_on_def)
  from firm_init_inv [OF f this]
  have "econ_inv (m\<lparr>fobj := (fobj m)(i := f), firm_agents := firm_agents m @ [i], rng := g'\<rparr>)"
    using Cons.prems(2) by (simp add: econ_inv_def nonneg_on_def)
  from Cons.IH [OF r this] show ?case .
qed

lemma collect_inv: "econ_inv m \<Longrightarrow> econ_inv (collect m)"
  using collect_stress_inv [of "set (worker_agents m)" "set (firm_agents m)" m "worker_agents m"]
  by (simp add: econ_inv_def collect_lists collect_def [symmetric])

lemma model_init_inv:
  assumes "model_init w0 f0 n_workers n_firms n_owners g = Inr m" "rng_ok g"
  shows "econ_inv m"
proof -
  define m0 where
    "m0 = \<lparr>num_workers = n_workers, num_firms = n_firms, num_owners = n_owners,
            price_index = 1.0, inflation_rate = 0.02,
            employed_workers = [], unemployed_workers = [],
            worker_agents = [], firm_agents = [],
            wobj = (\<lambda>_. w0), fobj = (\<lambda>_. f0), rng = g\<rparr>"
  define m1 where "m1 = create_workers [0..<nat n_workers] m0"
  have "econ_inv m0" using assms(2) by (simp add: m0_def econ_inv_def nonneg_on_def)
  then have i1: "econ_inv m1" unfolding m1_def by (rule create_workers_inv)
  have "model_init w0 f0 n_workers n_firms n_owners g =
      (case create_firms [0..<nat n_firms] m1 of
         Inl e \<Rightarrow> Inl e
       | Inr m2 \<Rightarrow>
           (case py_div (real (length (filter owns_firm (get_workers (collect m2)))))
                   (real_of_int n_workers) of
              Inl e \<Rightarrow> Inl e
            | Inr share \<Rightarrow> Inr (collect m2)))"
    unfolding model_init_def Let_def m1_def m0_def by (rule refl)
  with assms(1) obtain m2 where
    c: "create_firms [0..<nat n_firms] m1 = Inr m2" and m: "m = collect m2"
    by (auto split: sum.splits)
  show ?thesis unfolding m by (rule collect_inv [OF create_firms_inv [OF c i1]])
qed

lemma run_steps_agents:
  assumes "run_steps n m = Inr m'"
  shows "worker_agents m' = worker_agents m \<and> firm_agents m' = firm_agents m"
  using assms
proof (induction n arbitrary: m)
  case 0
  then show ?case by simp
next
  case (Suc n)
  from Suc.prems obtain m1 where
    s: "model_step m = Inr m1" and r: "run_steps n m1 = Inr m'"
    by (auto split: sum.splits)
  from Suc.IH [OF r] model_step_agents [OF s] show ?case by simp
qed

lemma scenario_a_inv: "econ_inv scenario_a"
proof -
  have "0 \<le> wage_rates firm0 s" for s by (cases s) (simp_all add: firm0_def)
  then show ?thesis
    by (simp add: econ_inv_def nonneg_on_def scenario_a_def economy0_def worker_inv_def
        worker0_def rng_ok_sconst)
qed

lemmas step_defs = model_step_def worker_step_def calculate_financial_stress_def
      pay_basic_needs_def handle_debt_mechanics_def get_unmet_needs_def collect_def
      firm_step_def make_employment_decisions_def firing_decision_def
      hiring_decision_def should_hire_worker_def hire_worker_def fire_worker_def lose_job_def
      work_for_firm_def
      calculate_worker_wage_offer_def get_current_skill_mix_def get_reservation_wage_def
      get_productive_value_def get_productivity_def get_tax_rate_def
      choice_def random_def uniform_def py_div_def
      scenario_a_def economy0_def worker0_def firm0_def
      Let_def

lemma run_steps_scenario_a:
  "\<exists>m'. run_steps (Suc (Suc 0)) scenario_a = Inr m' \<and>
        is_employed (wobj m' 0) \<and> is_employed (wobj m' 1)"
  by (simp add: step_defs upt_rec)

lemmas init_defs = model_init_def worker_init_def firm_init_def determine_skill_level_def
      get_initial_wealth_def draw_productivity_def determine_firm_ownership_def
      determine_skill_preferences_def randint_def get_workers_def

lemma model_init_run_steps:
  "\<exists>m0 m'. model_init worker0 firm0 1 1 0 (sconst 0) = Inr m0 \<and>
           run_steps (Suc 0) m0 = Inr m' \<and> worker_agents m' = [0] \<and>
           is_employed (wobj m' 0) \<and> 0 < debt (wobj m' 0)"
  by (simp add: init_defs step_defs upt_rec)

text \<open>
  C6. For every worker of the economy, at every step boundary, wealth and debt are not
  negative. \<open>econ_inv\<close> holds of the economy the constructor returns, whatever the
  population sizes and the draws in \<open>[0, 1)\<close>, and it is kept by any number of steps that
  return; it contains \<open>0 \<le> wealth\<close> and \<open>0 \<le> debt\<close> for every worker of the
  economy. The operations of the worker's step keep \<open>worker_inv\<close> (lemmas
  \<open>pay_basic_needs_inv\<close>, \<open>handle_debt_mechanics_inv\<close>, \<open>decay_inv\<close>,
  \<open>worker_step_inv\<close>), and so does every payment (lemma
  \<open>work_for_firm_worker_inv\<close>): the hourly wage a firm pays is an offer divided by the
  hours, and an offer is at least the firm's rate times the hours (lemma
  \<open>calculate_worker_wage_offer_nonneg\<close>); the tax rate is at most 1 (lemma
  \<open>get_tax_rate_bounds\<close>). In the instances below the two workers of Scenario A
  go through two weeks, pay their needs, and are hired and paid; and the worker of an
  economy made by the constructor, who starts without wealth, goes into debt for the
  basic needs and is hired and paid in the first week.
\<close>

theorem wealth_debt_nonneg:
  "(econ_inv m \<and> run_steps n m = Inr m' \<longrightarrow>
      econ_inv m' \<and> (\<forall>w\<in>set (get_workers m'). 0 \<le> wealth w \<and> 0 \<le> debt w)) \<and>
   (rng_ok g \<and> model_init w0 f0 n_workers n_firms n_owners g = Inr m0 \<longrightarrow> econ_inv m0)"
  using run_steps_inv econ_inv_nonneg model_init_inv by blast

theorem wealth_debt_nonneg_witness:
  "econ_inv scenario_a \<and>
   (\<exists>m'. run_steps (Suc (Suc 0)) scenario_a = Inr m' \<and> worker_agents m' = [0, 1] \<and>
         is_employed (wobj m' 0) \<and> is_employed (wobj m' 1) \<and>
         0 \<le> wealth (wobj m' 0) \<and> 0 \<le> debt (wobj m' 0) \<and>
         0 \<le> wealth (wobj m' 1) \<and> 0 \<le> debt (wobj m' 1)) \<and>
   rng_ok (sconst 0) \<and>
   (\<exists>m0 m'. model_init worker0 firm0 1 1 0 (sconst 0) = Inr m0 \<and> econ_inv m0 \<and>
         run_steps (Suc 0) m0 = Inr m' \<and> worker_agents m' = [0] \<and>
         is_employed (wobj m' 0) \<and> 0 \<le> wealth (wobj m' 0) \<and> 0 < debt (wobj m' 0))"
proof -
  obtain m' where r: "run_steps (Suc (Suc 0)) scenario_a = Inr m'"
    and e: "is_employed (wobj m' 0)" "is_employed (wobj m' 1)"
    using run_steps_scenario_a by blast
  have a: "worker_agents m' = [0, 1]"
    using run_steps_agents [OF r] by (simp add: scenario_a_def economy0_def upt_rec)
  have "econ_inv scenario_a \<and> run_steps (Suc (Suc 0)) scenario_a = Inr m' \<longrightarrow>
      econ_inv m' \<and> (\<forall>w\<in>set (get_workers m'). 0 \<le> wealth w \<and> 0 \<le> debt w)"
    by (rule wealth_debt_nonneg [THEN conjunct1])
  with scenario_a_inv r
  have "\<forall>w\<in>set (get_workers m'). 0 \<le> wealth w \<and> 0 \<le> debt w" by blast
  then have n: "0 \<le> wealth (wobj m' 0) \<and> 0 \<le> debt (wobj m' 0) \<and>
      0 \<le> wealth (wobj m' 1) \<and> 0 \<le> debt (wobj m' 1)"
    by (simp add: get_workers_def a)
  obtain m0 m1 where i: "model_init worker0 firm0 1 1 0 (sconst 0) = Inr m0"
    and r1: "run_steps (Suc 0) m0 = Inr m1" and a1: "worker_agents m1 = [0]"
    and e1: "is_employed (wobj m1 0)" "0 < debt (wobj m1 0)"
    using model_init_run_steps by blast
  have "rng_ok (sconst 0) \<and> model_init worker0 firm0 1 1 0 (sconst 0) = Inr m0 \<longrightarrow> econ_inv m0"
    by (rule wealth_debt_nonneg [THEN conjunct2])
  with rng_ok_sconst i have c: "econ_inv m0" by blast
  have "econ_inv m0 \<and> run_steps (Suc 0) m0 = Inr m1 \<longrightarrow>
      econ_inv m1 \<and> (\<forall>w\<in>set (get_workers m1). 0 \<le> wealth w \<and> 0 \<le> debt w)"
    by (rule wealth_debt_nonneg [THEN conjunct1])
  with c r1 have "\<forall>w\<in>set (get_workers m1). 0 \<le> wealth w \<and> 0 \<le> debt w" by blast
  then have n1: "0 \<le> wealth (wobj m1 0)" by (simp add: get_workers_def a1)
  have p1: "\<exists>m'. run_steps (Suc (Suc 0)) scenario_a = Inr m' \<and> worker_agents m' = [0, 1] \<and>
         is_employed (wobj m' 0) \<and> is_employed (wobj m' 1) \<and>
         0 \<le> wealth (wobj m' 0) \<and> 0 \<le> debt (wobj m' 0) \<and>
         0 \<le> wealth (wobj m' 1) \<and> 0 \<le> debt (wobj m' 1)"
    using r a e n by blast
  have p2: "\<exists>m0 m'. model_init worker0 firm0 1 1 0 (sconst 0) = Inr m0 \<and> econ_inv m0 \<and>
         run_steps (Suc 0) m0 = Inr m' \<and> worker_agents m' = [0] \<and>
         is_employed (wobj m' 0) \<and> 0 \<le> wealth (wobj m' 0) \<and> 0 < debt (wobj m' 0)"
    using i c r1 a1 e1 n1 by blast
  from scenario_a_inv p1 rng_ok_sconst p2 show ?thesis by (intro conjI)
qed

end
